theory Spec2Isabelle
  imports Main "HOL-Library.Sublist"
begin

section \<open>Values of the untyped parts of the program\<close>

text \<open>
  The engine passes values of TypeScript type \<open>any\<close> around: step inputs and outputs,
  log data, workflow state and signal payloads. They are modelled by a small datatype of
  JavaScript values. Numbers are restricted to integers; a \<open>Date\<close> is the number of
  milliseconds it holds. An object is the list of its own properties in insertion order.
\<close>

datatype jsval =
    JUndefined
  | JNull
  | JBool bool
  | JNum int
  | JStr string
  | JDate nat
  | JArr "jsval list"
  | JObj "(string \<times> jsval) list"

text \<open>JavaScript's falsiness, as used by \<open>x || {}\<close>.\<close>

fun falsy :: "jsval \<Rightarrow> bool" where
  "falsy JUndefined = True"
| "falsy JNull = True"
| "falsy (JBool b) = (\<not> b)"
| "falsy (JNum n) = (n = 0)"
| "falsy (JStr s) = (s = [])"
| "falsy (JDate t) = False"
| "falsy (JArr xs) = False"
| "falsy (JObj kvs) = False"

text \<open>Decimal rendering of numbers inside template strings.\<close>

definition digit_char :: "nat \<Rightarrow> char" where
  "digit_char d = ''0123456789'' ! d"

function show_nat :: "nat \<Rightarrow> string" where
  "show_nat n = (if n < 10 then [digit_char n] else show_nat (n div 10) @ [digit_char (n mod 10)])"
  by pat_completeness auto
termination
  by (relation "measure (\<lambda>n. n)") auto

declare show_nat.simps [simp del]

definition show_int :: "int \<Rightarrow> string" where
  "show_int i = (if i < 0 then CHR ''-'' # show_nat (nat (- i)) else show_nat (nat i))"

text \<open>\<open>String.prototype.includes\<close>: the pattern occurs as a contiguous substring.\<close>

fun str_includes :: "string \<Rightarrow> string \<Rightarrow> bool" where
  "str_includes [] pat = (pat = [])"
| "str_includes (c # cs) pat = (prefix pat (c # cs) \<or> str_includes cs pat)"

definition PAUSE_MARKER :: string where
  "PAUSE_MARKER = ''WORKFLOW_PAUSED_WAITING_FOR_SIGNAL''"

text \<open>Setting a property of an object: an existing key keeps its place.\<close>

fun obj_set :: "string \<Rightarrow> jsval \<Rightarrow> (string \<times> jsval) list \<Rightarrow> (string \<times> jsval) list" where
  "obj_set k v [] = [(k, v)]"
| "obj_set k v ((k', v') # kvs) =
     (if k' = k then (k, v) # kvs else (k', v') # obj_set k v kvs)"

fun indexed :: "nat \<Rightarrow> jsval list \<Rightarrow> (string \<times> jsval) list" where
  "indexed i [] = []"
| "indexed i (x # xs) = (show_nat i, x) # indexed (Suc i) xs"

text \<open>The own enumerable properties that the object spread \<open>{...data}\<close> copies.\<close>

fun js_spread :: "jsval \<Rightarrow> (string \<times> jsval) list" where
  "js_spread (JObj kvs) = kvs"
| "js_spread (JArr xs) = indexed 0 xs"
| "js_spread (JStr s) = indexed 0 (map (\<lambda>c. JStr [c]) s)"
| "js_spread JUndefined = []"
| "js_spread JNull = []"
| "js_spread (JBool b) = []"
| "js_spread (JNum n) = []"
| "js_spread (JDate t) = []"

text \<open>
  \<open>Date.prototype.toISOString\<close>: the instant, in milliseconds since the epoch, as
  \<open>YYYY-MM-DDTHH:mm:ss.sssZ\<close> (with a sign and six digits for a year beyond 9999).
\<close>

definition pad_nat :: "nat \<Rightarrow> nat \<Rightarrow> string" where
  "pad_nat w n = replicate (w - length (show_nat n)) CHR ''0'' @ show_nat n"

definition toISOString :: "nat \<Rightarrow> string" where
  "toISOString t =
     (let days = t div 86400000; ms = t mod 86400000;
          z = days + 719468; era = z div 146097; doe = z mod 146097;
          yoe = (doe - doe div 1460 + doe div 36524 - doe div 146096) div 365;
          doy = doe - (365 * yoe + yoe div 4 - yoe div 100);
          mp = (5 * doy + 2) div 153;
          d = doy - (153 * mp + 2) div 5 + 1;
          m = (if mp < 10 then mp + 3 else mp - 9);
          y = yoe + era * 400 + (if m \<le> 2 then 1 else 0)
      in (if y \<le> 9999 then pad_nat 4 y else CHR ''+'' # pad_nat 6 y) @ ''-'' @ pad_nat 2 m
           @ ''-'' @ pad_nat 2 d @ ''T'' @ pad_nat 2 (ms div 3600000) @ '':''
           @ pad_nat 2 (ms mod 3600000 div 60000) @ '':'' @ pad_nat 2 (ms mod 60000 div 1000)
           @ ''.'' @ pad_nat 3 (ms mod 1000) @ ''Z'')"

text \<open>
  \<open>JSON.parse(JSON.stringify(v))\<close>: what a value has become when it comes back from a
  JSON text. A \<open>Date\<close> is the string of its ISO form (\<open>null\<close> when it is out of range), a
  property whose value is \<open>undefined\<close> is gone, an \<open>undefined\<close> array element is \<open>null\<close>.
  The value \<open>undefined\<close> itself stands for a property that is absent, before and after.
  Numbers are integers here, so none of them turns into \<open>null\<close>.
\<close>

fun json_roundtrip :: "jsval \<Rightarrow> jsval"
  and json_properties :: "(string \<times> jsval) list \<Rightarrow> (string \<times> jsval) list"
  and json_elements :: "jsval list \<Rightarrow> jsval list" where
  "json_roundtrip JUndefined = JUndefined"
| "json_roundtrip JNull = JNull"
| "json_roundtrip (JBool b) = JBool b"
| "json_roundtrip (JNum n) = JNum n"
| "json_roundtrip (JStr s) = JStr s"
| "json_roundtrip (JDate t) = (if t \<le> 8640000000000000 then JStr (toISOString t) else JNull)"
| "json_roundtrip (JArr xs) = JArr (json_elements xs)"
| "json_roundtrip (JObj kvs) = JObj (json_properties kvs)"
| "json_properties [] = []"
| "json_properties ((k, v) # kvs) =
     (if v = JUndefined then json_properties kvs else (k, json_roundtrip v) # json_properties kvs)"
| "json_elements [] = []"
| "json_elements (x # xs) =
     (if x = JUndefined then JNull else json_roundtrip x) # json_elements xs"

section \<open>The data model (types/workflow)\<close>

text \<open>
  The fields \<open>timestamp\<close>, \<open>startedAt\<close> and \<open>completedAt\<close> of a log entry and of a step
  execution are declared as \<open>Date\<close>. The engine writes \<open>Date\<close> objects into them, but a
  step execution that has been read from the store holds the ISO strings there, so the
  fields are values: \<open>JDate\<close>, \<open>JStr\<close>, or \<open>JUndefined\<close> when absent.
\<close>

datatype js_error = Error (message: string)

record LogEntry =
  log_timestamp :: jsval
  log_message :: string
  log_data :: jsval

datatype step_status = Pending | Running | Completed | Failed | Retrying

record StepExecution =
  se_stepId :: string
  se_status :: step_status
  se_attempts :: int
  se_startedAt :: jsval
  se_completedAt :: jsval
  se_error :: "string option"
  se_output :: jsval
  se_logs :: "LogEntry list"

datatype workflow_status = WRunning | WCompleted | WFailed | WPaused

record WorkflowExecution =
  we_id :: string
  we_workflowId :: string
  we_status :: workflow_status
  we_currentStep :: "string option"
  we_startedAt :: nat
  we_completedAt :: "nat option"
  we_steps :: "StepExecution list"

record StepContext =
  ctx_input :: jsval
  ctx_stepId :: string
  ctx_workflowId :: string
  ctx_attempt :: int

record StepResult =
  sr_output :: jsval
  sr_next :: "string option"

text \<open>
  A handler is an arbitrary asynchronous function of its context. What it can do to the
  engine is: call \<open>context.log\<close> and \<open>context.setState\<close> any number of times, read
  \<open>context.getState\<close>, take time, and finally return a result or throw an error with a
  message. Everything else it touches (users, tokens, mail) is an abstract environment
  \<open>'e\<close> that it reads and returns changed.
\<close>

datatype handler_outcome = Returns StepResult | Throws string

record 'e HandlerRun =
  hr_logs :: "(string \<times> jsval) list"
  hr_sets :: "(string \<times> jsval) list"
  hr_outcome :: handler_outcome
  hr_elapsed :: nat
  hr_env :: 'e

type_synonym 'e StepHandler = "StepContext \<Rightarrow> (string \<Rightarrow> jsval) \<Rightarrow> 'e \<Rightarrow> 'e HandlerRun"

record RetryPolicy =
  rp_maxAttempts :: "int option"
  rp_backoffMs :: "int option"

record 'e StepDefinition =
  sd_id :: string
  sd_name :: string
  sd_handler :: "'e StepHandler"
  sd_retryPolicy :: "RetryPolicy option"

record 'e WorkflowDefinition =
  wd_id :: string
  wd_name :: string
  wd_steps :: "'e StepDefinition list"

section \<open>The runtime (motia/motia.ts)\<close>

text \<open>
  What the engine does besides changing its records is kept in a trace: every handler
  invocation (step id, attempt number and how the handler ended) and every call of
  \<open>sleep\<close> with its argument.
\<close>

datatype event = Invoked string int handler_outcome | Slept int

text \<open>The handler invocations of a trace: attempt number and outcome of each.\<close>

fun invocations :: "event list \<Rightarrow> (int \<times> handler_outcome) list" where
  "invocations [] = []"
| "invocations (Invoked stepId attempt outcome # es) = (attempt, outcome) # invocations es"
| "invocations (Slept ms # es) = invocations es"

text \<open>
  The store is the class \<open>DatabaseService\<close> that the engine imports from
  \<open>storage/database\<close>: the SQLite table \<open>workflows\<close> with its primary key \<open>id\<close>, written
  by \<open>INSERT OR REPLACE\<close>. A row has the columns of the table. The column \<open>started_at\<close>
  holds \<open>startedAt.toISOString()\<close> and is read back with \<open>new Date\<close>, which gives the same
  instant: the column is represented by that instant, and so is \<open>completed_at\<close>. The
  column \<open>steps_data\<close> holds the text \<open>JSON.stringify(workflow.steps)\<close> and is read back
  with \<open>JSON.parse\<close>: it is represented by the steps that the text parses to. So what
  \<open>getWorkflow\<close> returns is not the record that was saved: the dates of its steps and of
  their log entries are strings. Failures of SQLite itself are left out.
\<close>

record WorkflowRow =
  row_id :: string
  row_workflow_id :: string
  row_status :: workflow_status
  row_current_step :: "string option"
  row_started_at :: nat
  row_completed_at :: "nat option"
  row_steps_data :: "StepExecution list"

definition json_log :: "LogEntry \<Rightarrow> LogEntry" where
  "json_log entry =
     \<lparr>log_timestamp = json_roundtrip (log_timestamp entry), log_message = log_message entry,
      log_data = json_roundtrip (log_data entry)\<rparr>"

definition json_step :: "StepExecution \<Rightarrow> StepExecution" where
  "json_step stepExecution =
     stepExecution\<lparr>se_startedAt := json_roundtrip (se_startedAt stepExecution),
                     se_completedAt := json_roundtrip (se_completedAt stepExecution),
                     se_output := json_roundtrip (se_output stepExecution),
                     se_logs := map json_log (se_logs stepExecution)\<rparr>"

text \<open>The values bound by \<open>saveWorkflow\<close>, and the record built by \<open>getWorkflow\<close>.\<close>

definition workflow_row :: "WorkflowExecution \<Rightarrow> WorkflowRow" where
  "workflow_row workflow =
     \<lparr>row_id = we_id workflow,
      row_workflow_id = we_workflowId workflow,
      row_status = we_status workflow,
      row_current_step = (case we_currentStep workflow of
                            None \<Rightarrow> None
                          | Some stepId \<Rightarrow> if stepId = [] then None else Some stepId),
      row_started_at = we_startedAt workflow,
      row_completed_at = we_completedAt workflow,
      row_steps_data = map json_step (we_steps workflow)\<rparr>"

definition row_workflow :: "WorkflowRow \<Rightarrow> WorkflowExecution" where
  "row_workflow row =
     \<lparr>we_id = row_id row,
      we_workflowId = row_workflow_id row,
      we_status = row_status row,
      we_currentStep = (case row_current_step row of
                          None \<Rightarrow> None
                        | Some stepId \<Rightarrow> if stepId = [] then None else Some stepId),
      we_startedAt = row_started_at row,
      we_completedAt = row_completed_at row,
      we_steps = row_steps_data row\<rparr>"

record 'e MotiaRuntime =
  stepDefinitions :: "string \<rightharpoonup> 'e StepDefinition"
  workflowDefinitions :: "string \<rightharpoonup> 'e WorkflowDefinition"
  workflowState :: "string \<rightharpoonup> (string \<rightharpoonup> jsval)"
  database :: "string \<rightharpoonup> WorkflowRow"
  clock :: nat
  events :: "event list"
  env :: 'e

definition saveWorkflow :: "'e MotiaRuntime \<Rightarrow> WorkflowExecution \<Rightarrow> 'e MotiaRuntime" where
  "saveWorkflow rt workflow =
     rt\<lparr>database := (database rt)(we_id workflow \<mapsto> workflow_row workflow)\<rparr>"

definition getWorkflow :: "'e MotiaRuntime \<Rightarrow> string \<Rightarrow> WorkflowExecution option" where
  "getWorkflow rt workflowId =
     (case database rt workflowId of None \<Rightarrow> None | Some row \<Rightarrow> Some (row_workflow row))"

definition registerStep :: "'e MotiaRuntime \<Rightarrow> 'e StepDefinition \<Rightarrow> 'e MotiaRuntime" where
  "registerStep rt step = rt\<lparr>stepDefinitions := (stepDefinitions rt)(sd_id step \<mapsto> step)\<rparr>"

definition registerWorkflow :: "'e MotiaRuntime \<Rightarrow> 'e WorkflowDefinition \<Rightarrow> 'e MotiaRuntime" where
  "registerWorkflow rt workflow =
     rt\<lparr>workflowDefinitions := (workflowDefinitions rt)(wd_id workflow \<mapsto> workflow)\<rparr>"

definition logStep :: "nat \<Rightarrow> StepExecution \<Rightarrow> string \<Rightarrow> jsval \<Rightarrow> StepExecution" where
  "logStep now stepExecution msg data =
     stepExecution\<lparr>se_logs := se_logs stepExecution @
       [\<lparr>log_timestamp = JDate now, log_message = msg, log_data = data\<rparr>]\<rparr>"

definition getWorkflowState :: "'e MotiaRuntime \<Rightarrow> string \<Rightarrow> string \<Rightarrow> jsval" where
  "getWorkflowState rt workflowId key =
     (case workflowState rt workflowId of
        None \<Rightarrow> JUndefined
      | Some st \<Rightarrow> (case st key of None \<Rightarrow> JUndefined | Some v \<Rightarrow> v))"

definition setWorkflowState :: "'e MotiaRuntime \<Rightarrow> string \<Rightarrow> string \<Rightarrow> jsval \<Rightarrow> 'e MotiaRuntime" where
  "setWorkflowState rt workflowId key v =
     (let st = (case workflowState rt workflowId of None \<Rightarrow> Map.empty | Some st \<Rightarrow> st)
      in rt\<lparr>workflowState := (workflowState rt)(workflowId \<mapsto> st(key \<mapsto> v))\<rparr>)"

definition sleep :: "'e MotiaRuntime \<Rightarrow> int \<Rightarrow> 'e MotiaRuntime" where
  "sleep rt ms = rt\<lparr>clock := clock rt + nat ms, events := events rt @ [Slept ms]\<rparr>"

subsection \<open>The retry executor: \<open>executeStepWithRetry\<close>\<close>

text \<open>
  One pass through the body of the \<open>for\<close> loop either leaves the function (by a return
  or by a throw) or falls through to the next attempt with \<open>lastError\<close> set.
\<close>

datatype 'e attempt_exit =
    Leave "js_error + StepResult" StepExecution "'e MotiaRuntime"
  | NextAttempt js_error StepExecution "'e MotiaRuntime"

definition run_handler ::
  "'e StepDefinition \<Rightarrow> string \<Rightarrow> jsval \<Rightarrow> int \<Rightarrow> 'e MotiaRuntime \<Rightarrow> 'e HandlerRun" where
  "run_handler stepDef workflowId input attempt rt =
     sd_handler stepDef
       \<lparr>ctx_input = input, ctx_stepId = sd_id stepDef, ctx_workflowId = workflowId,
        ctx_attempt = attempt\<rparr>
       (getWorkflowState rt workflowId) (env rt)"

definition apply_logs :: "nat \<Rightarrow> StepExecution \<Rightarrow> (string \<times> jsval) list \<Rightarrow> StepExecution" where
  "apply_logs now stepExecution ls = foldl (\<lambda>se (m, d). logStep now se m d) stepExecution ls"

definition apply_sets :: "'e MotiaRuntime \<Rightarrow> string \<Rightarrow> (string \<times> jsval) list \<Rightarrow> 'e MotiaRuntime" where
  "apply_sets rt workflowId kvs = foldl (\<lambda>r (k, v). setWorkflowState r workflowId k v) rt kvs"

definition attempt_body ::
  "'e StepDefinition \<Rightarrow> int \<Rightarrow> int \<Rightarrow> string \<Rightarrow> jsval \<Rightarrow> int \<Rightarrow> StepExecution \<Rightarrow> 'e MotiaRuntime
    \<Rightarrow> 'e attempt_exit" where
  "attempt_body stepDef maxAttempts backoffMs workflowId input attempt stepExecution rt =
     (let se1 = stepExecution\<lparr>se_attempts := attempt,
                  se_status := (if attempt = 1 then Running else Retrying),
                  se_startedAt := JDate (clock rt)\<rparr>;
          se2 = logStep (clock rt) se1
                  (''Attempt '' @ show_int attempt @ ''/'' @ show_int maxAttempts) JUndefined;
          hr = run_handler stepDef workflowId input attempt rt;
          rt1 = rt\<lparr>events := events rt @ [Invoked (sd_id stepDef) attempt (hr_outcome hr)]\<rparr>;
          se3 = apply_logs (clock rt) se2 (hr_logs hr);
          rt2 = apply_sets rt1 workflowId (hr_sets hr);
          rt3 = rt2\<lparr>clock := clock rt2 + hr_elapsed hr, env := hr_env hr\<rparr>
      in case hr_outcome hr of
           Returns result \<Rightarrow>
             Leave (Inr result)
               (logStep (clock rt3)
                  (se3\<lparr>se_status := Completed, se_completedAt := JDate (clock rt3),
                       se_output := sr_output result\<rparr>)
                  ''Step completed successfully'' JUndefined)
               rt3
         | Throws errorMessage \<Rightarrow>
             if str_includes errorMessage PAUSE_MARKER then
               Leave (Inl (Error errorMessage))
                 (logStep (clock rt3) (se3\<lparr>se_status := Running, se_error := None\<rparr>)
                    ''Workflow paused, waiting for signal'' JUndefined)
                 rt3
             else
               NextAttempt (Error errorMessage)
                 (logStep (clock rt3) (se3\<lparr>se_error := Some errorMessage\<rparr>)
                    (''Attempt '' @ show_int attempt @ '' failed: '' @ errorMessage) JUndefined)
                 (if attempt < maxAttempts then sleep rt3 (backoffMs * attempt) else rt3))"

function retry_loop ::
  "'e StepDefinition \<Rightarrow> int \<Rightarrow> int \<Rightarrow> string \<Rightarrow> jsval \<Rightarrow> int \<Rightarrow> js_error option \<Rightarrow> StepExecution
    \<Rightarrow> 'e MotiaRuntime \<Rightarrow> (js_error + StepResult) \<times> StepExecution \<times> 'e MotiaRuntime" where
  "retry_loop stepDef maxAttempts backoffMs workflowId input attempt lastError stepExecution rt =
     (if attempt \<le> maxAttempts then
        (case attempt_body stepDef maxAttempts backoffMs workflowId input attempt stepExecution rt of
           Leave r se' rt' \<Rightarrow> (r, se', rt')
         | NextAttempt e se' rt' \<Rightarrow>
             retry_loop stepDef maxAttempts backoffMs workflowId input (attempt + 1) (Some e) se' rt')
      else
        (Inl (case lastError of Some e \<Rightarrow> e | None \<Rightarrow> Error ''Step failed after all retries''),
         stepExecution\<lparr>se_status := Failed, se_completedAt := JDate (clock rt)\<rparr>, rt))"
  by pat_completeness auto
termination
  by (relation "measure (\<lambda>(stepDef, maxAttempts, backoffMs, workflowId, input, attempt, rest).
        nat (maxAttempts + 1 - attempt))") auto

declare retry_loop.simps [simp del]

text \<open>The two constants read from the retry policy, with their defaults.\<close>

definition maxAttempts_of :: "'e StepDefinition \<Rightarrow> int" where
  "maxAttempts_of stepDef =
     (case sd_retryPolicy stepDef of
        None \<Rightarrow> 3
      | Some p \<Rightarrow> (case rp_maxAttempts p of None \<Rightarrow> 3 | Some n \<Rightarrow> n))"

definition backoffMs_of :: "'e StepDefinition \<Rightarrow> int" where
  "backoffMs_of stepDef =
     (case sd_retryPolicy stepDef of
        None \<Rightarrow> 1000
      | Some p \<Rightarrow> (case rp_backoffMs p of None \<Rightarrow> 1000 | Some n \<Rightarrow> n))"

definition executeStepWithRetry ::
  "'e StepDefinition \<Rightarrow> StepExecution \<Rightarrow> string \<Rightarrow> jsval \<Rightarrow> 'e MotiaRuntime
    \<Rightarrow> (js_error + StepResult) \<times> StepExecution \<times> 'e MotiaRuntime" where
  "executeStepWithRetry stepDef stepExecution workflowId input rt =
     retry_loop stepDef (maxAttempts_of stepDef) (backoffMs_of stepDef) workflowId input
       1 None stepExecution rt"

subsection \<open>The scheduler: \<open>executeWorkflow\<close>\<close>

text \<open>\<open>Array.prototype.findIndex\<close>, with \<open>None\<close> for its \<open>-1\<close>.\<close>

fun findIndex :: "('a \<Rightarrow> bool) \<Rightarrow> 'a list \<Rightarrow> nat option" where
  "findIndex P [] = None"
| "findIndex P (x # xs) = (if P x then Some 0 else map_option Suc (findIndex P xs))"

text \<open>
  How the loop over the steps of the definition ends: it runs to its end with the current
  input, or the function returns from inside it, or an error is thrown out of it.
\<close>

datatype loop_exit = LoopEnd jsval | Return | Throw js_error

text \<open>
  \<open>execution.steps.find\<close> yields the step execution object itself, which
  \<open>executeStepWithRetry\<close> then mutates in place; here the changed step execution is
  written back at the index where it was found.
\<close>

fun step_loop ::
  "'e StepDefinition list \<Rightarrow> WorkflowExecution \<Rightarrow> jsval \<Rightarrow> 'e MotiaRuntime
    \<Rightarrow> loop_exit \<times> WorkflowExecution \<times> 'e MotiaRuntime" where
  "step_loop [] execution currentInput rt = (LoopEnd currentInput, execution, rt)"
| "step_loop (stepDef # rest) execution currentInput rt =
     (case findIndex (\<lambda>s. se_stepId s = sd_id stepDef) (we_steps execution) of
        None \<Rightarrow> step_loop rest execution currentInput rt
      | Some i \<Rightarrow>
          let stepExecution = we_steps execution ! i in
          if se_status stepExecution = Completed then
            step_loop rest execution (se_output stepExecution) rt
          else
            let execution1 = execution\<lparr>we_currentStep := Some (sd_id stepDef)\<rparr>;
                rt1 = saveWorkflow rt execution1
            in (case executeStepWithRetry stepDef stepExecution (we_id execution1) currentInput rt1 of
                 (Inr result, se', rt2) \<Rightarrow>
                   let execution2 = execution1\<lparr>we_steps := list_update (we_steps execution1) i se'\<rparr> in
                   if se_status se' = Failed then
                     let execution3 = execution2\<lparr>we_status := WFailed\<rparr>
                     in (Return, execution3, saveWorkflow rt2 execution3)
                   else if se_status se' = Running \<and>
                           list_ex (\<lambda>log. str_includes (log_message log) PAUSE_MARKER) (se_logs se')
                   then
                     let execution3 = execution2\<lparr>we_status := WPaused\<rparr>
                     in (Return, execution3, saveWorkflow rt2 execution3)
                   else step_loop rest execution2 (sr_output result) rt2
               | (Inl error, se', rt2) \<Rightarrow>
                   let execution2 = execution1\<lparr>we_steps := list_update (we_steps execution1) i se'\<rparr> in
                   if str_includes (message error) PAUSE_MARKER then
                     let execution3 = execution2\<lparr>we_status := WPaused\<rparr>
                     in (Return, execution3, saveWorkflow rt2 execution3)
                   else (Throw error, execution2, rt2)))"

text \<open>
  \<open>executeWorkflow\<close> yields the error it throws, if any, the execution record as it has
  left it, and the runtime.
\<close>

definition executeWorkflow ::
  "'e MotiaRuntime \<Rightarrow> WorkflowExecution \<Rightarrow> jsval
    \<Rightarrow> js_error option \<times> WorkflowExecution \<times> 'e MotiaRuntime" where
  "executeWorkflow rt execution initialInput =
     (case workflowDefinitions rt (we_workflowId execution) of
        None \<Rightarrow> (None, execution, rt)
      | Some workflowDef \<Rightarrow>
          (case step_loop (wd_steps workflowDef) (execution\<lparr>we_currentStep := None\<rparr>)
                  initialInput rt of
             (LoopEnd currentInput, execution', rt') \<Rightarrow>
               let execution'' = execution'\<lparr>we_status := WCompleted,
                                     we_completedAt := Some (clock rt'),
                                     we_currentStep := None\<rparr>
               in (None, execution'', saveWorkflow rt' execution'')
           | (Return, execution', rt') \<Rightarrow> (None, execution', rt')
           | (Throw error, execution', rt') \<Rightarrow> (Some error, execution', rt')))"

subsection \<open>\<open>startWorkflow\<close> and \<open>signalWorkflow\<close>\<close>

text \<open>
  \<open>startWorkflow\<close> draws a random id (\<open>uuidv4\<close>), here the argument \<open>newId\<close>. It hands the
  execution record to its caller at once and lets \<open>executeWorkflow\<close> run on; the model
  gives the record and the runtime as they are when that run and its \<open>catch\<close> handler have
  settled.
\<close>

text \<open>The step execution that \<open>startWorkflow\<close> creates for a step of the definition.\<close>

definition pending_step :: "'e StepDefinition \<Rightarrow> StepExecution" where
  "pending_step step =
     \<lparr>se_stepId = sd_id step, se_status = Pending, se_attempts = 0, se_startedAt = JUndefined,
      se_completedAt = JUndefined, se_error = None, se_output = JUndefined, se_logs = []\<rparr>"

definition startWorkflow ::
  "'e MotiaRuntime \<Rightarrow> string \<Rightarrow> string \<Rightarrow> jsval
    \<Rightarrow> (js_error + WorkflowExecution) \<times> 'e MotiaRuntime" where
  "startWorkflow rt newId workflowId initialInput =
     (case workflowDefinitions rt workflowId of
        None \<Rightarrow> (Inl (Error (''Workflow '' @ workflowId @ '' not found'')), rt)
      | Some workflowDef \<Rightarrow>
          let execution =
                \<lparr>we_id = newId, we_workflowId = workflowId, we_status = WRunning,
                 we_currentStep = None, we_startedAt = clock rt, we_completedAt = None,
                 we_steps = map pending_step (wd_steps workflowDef)\<rparr>;
              rt1 = saveWorkflow rt execution
          in (case executeWorkflow rt1 execution initialInput of
               (None, execution', rt2) \<Rightarrow> (Inr execution', rt2)
             | (Some err, execution', rt2) \<Rightarrow>
                 if \<not> str_includes (message err) PAUSE_MARKER then
                   let execution'' = execution'\<lparr>we_status := WFailed\<rparr>
                   in (Inr execution'', saveWorkflow rt2 execution'')
                 else (Inr execution', rt2)))"

text \<open>
  \<open>signalWorkflow\<close> yields the error thrown out of it, if any, the execution record it
  worked on (none when it returned at its guard), and the runtime.
\<close>

definition signalWorkflow ::
  "'e MotiaRuntime \<Rightarrow> string \<Rightarrow> string \<Rightarrow> jsval
    \<Rightarrow> js_error option \<times> WorkflowExecution option \<times> 'e MotiaRuntime" where
  "signalWorkflow rt workflowId event data =
     (case getWorkflow rt workflowId of
        None \<Rightarrow> (None, None, rt)
      | Some execution0 \<Rightarrow>
          if we_status execution0 \<noteq> WRunning \<and> we_status execution0 \<noteq> WPaused then
            (None, None, rt)
          else
            let rt1 = setWorkflowState rt workflowId (''signal:'' @ event)
                        (JObj (obj_set ''timestamp'' (JDate (clock rt)) (js_spread data)));
                execution = execution0\<lparr>we_status := WRunning\<rparr>
            in (case workflowDefinitions rt1 (we_workflowId execution) of
                 None \<Rightarrow> (None, Some execution, rt1)
               | Some workflowDef \<Rightarrow>
                   (case we_currentStep execution of
                      None \<Rightarrow> (None, Some execution, rt1)
                    | Some currentStep \<Rightarrow>
                        if currentStep = [] then (None, Some execution, rt1)
                        else
                          let lastCompletedOutput =
                                (case findIndex (\<lambda>s. sd_id s = currentStep) (wd_steps workflowDef) of
                                   None \<Rightarrow> JUndefined
                                 | Some 0 \<Rightarrow> JUndefined
                                 | Some (Suc j) \<Rightarrow>
                                     if j < length (we_steps execution)
                                     then se_output (we_steps execution ! j)
                                     else JUndefined);
                              resumeInput = (if falsy lastCompletedOutput then JObj []
                                             else lastCompletedOutput);
                              execution1 =
                                (case findIndex (\<lambda>s. se_stepId s = currentStep) (we_steps execution) of
                                   None \<Rightarrow> execution
                                 | Some i \<Rightarrow>
                                     execution\<lparr>we_steps := list_update (we_steps execution) i
                                       ((we_steps execution ! i)\<lparr>se_status := Pending,
                                                                     se_error := None\<rparr>)\<rparr>)
                          in (case executeWorkflow rt1 execution1 resumeInput of
                                (err, execution', rt2) \<Rightarrow> (err, Some execution', rt2)))))"

section \<open>A workflow to run the engine on\<close>

text \<open>
  The repository's own workflow, cut down to three steps. \<open>waitForVerificationStep\<close>
  follows \<open>steps/waitForVerification.step.ts\<close> (without the fallback \<open>new Date()\<close> for
  a signal that carries no timestamp). The other two stand for steps that call outside
  services: the first always succeeds, the last succeeds exactly when the environment (a
  flag saying that the service is up) is true.
\<close>

definition obj_get :: "string \<Rightarrow> jsval \<Rightarrow> jsval" where
  "obj_get k v = (case v of
      JObj kvs \<Rightarrow> (case map_of kvs k of Some x \<Rightarrow> x | None \<Rightarrow> JUndefined)
    | _ \<Rightarrow> JUndefined)"

definition createUserStep :: "bool StepDefinition" where
  "createUserStep =
     \<lparr>sd_id = ''create-user'', sd_name = ''Create User'',
      sd_handler = (\<lambda>ctx getState e.
         \<lparr>hr_logs = [(''Creating user account'', ctx_input ctx)], hr_sets = [],
          hr_outcome = Returns \<lparr>sr_output = JObj [(''userId'', JStr ''u1'')], sr_next = None\<rparr>,
          hr_elapsed = 5, hr_env = e\<rparr>),
      sd_retryPolicy = Some \<lparr>rp_maxAttempts = Some 3, rp_backoffMs = Some 500\<rparr>\<rparr>"

definition waitForVerificationStep :: "bool StepDefinition" where
  "waitForVerificationStep =
     \<lparr>sd_id = ''wait-for-verification'', sd_name = ''Wait for User Verification'',
      sd_handler = (\<lambda>ctx getState e.
         let userId = obj_get ''userId'' (ctx_input ctx);
             verificationSignal = getState ''signal:verified''
         in if \<not> falsy verificationSignal \<and> obj_get ''userId'' verificationSignal = userId then
              \<lparr>hr_logs = [(''Checking for user verification'', JObj [(''userId'', userId)]),
                          (''Verification signal received, proceeding'', JObj [(''userId'', userId)])],
               hr_sets = [],
               hr_outcome = Returns
                 \<lparr>sr_output = JObj (obj_set ''verifiedAt'' (obj_get ''timestamp'' verificationSignal)
                                (obj_set ''verified'' (JBool True) (js_spread (ctx_input ctx)))),
                  sr_next = None\<rparr>,
               hr_elapsed = 1, hr_env = e\<rparr>
            else
              \<lparr>hr_logs = [(''Checking for user verification'', JObj [(''userId'', userId)]),
                          (''WORKFLOW_PAUSED_WAITING_FOR_SIGNAL: verified'', JObj [(''userId'', userId)])],
               hr_sets = [(''waitingForVerification'', JBool True), (''waitingUserId'', userId)],
               hr_outcome = Throws ''WORKFLOW_PAUSED_WAITING_FOR_SIGNAL:verified'',
               hr_elapsed = 1, hr_env = e\<rparr>),
      sd_retryPolicy = None\<rparr>"

definition aiRiskCheckStep :: "bool StepDefinition" where
  "aiRiskCheckStep =
     \<lparr>sd_id = ''ai-risk-check'', sd_name = ''AI Risk Check'',
      sd_handler = (\<lambda>ctx getState e.
         if e then
           \<lparr>hr_logs = [(''Starting AI risk assessment'', JUndefined)], hr_sets = [],
            hr_outcome = Returns \<lparr>sr_output = JObj (obj_set ''riskDecision'' (JStr ''ALLOW'')
                                      (js_spread (ctx_input ctx))), sr_next = None\<rparr>,
            hr_elapsed = 7, hr_env = e\<rparr>
         else
           \<lparr>hr_logs = [(''Starting AI risk assessment'', JUndefined)], hr_sets = [],
            hr_outcome = Throws ''AI risk check failed: service unavailable'',
            hr_elapsed = 7, hr_env = e\<rparr>),
      sd_retryPolicy = Some \<lparr>rp_maxAttempts = Some 3, rp_backoffMs = Some 2000\<rparr>\<rparr>"

definition rejectingStep :: "bool StepDefinition" where
  "rejectingStep =
     \<lparr>sd_id = ''rejecting'', sd_name = ''Rejects every input'',
      sd_handler = (\<lambda>ctx getState e.
         \<lparr>hr_logs = [(''Creating user account'', ctx_input ctx)], hr_sets = [],
          hr_outcome = Throws ''Email and name are required'',
          hr_elapsed = 2, hr_env = e\<rparr>),
      sd_retryPolicy = Some \<lparr>rp_maxAttempts = Some 3, rp_backoffMs = Some 500\<rparr>\<rparr>"

text \<open>
  A step with the id and the retry policy of \<open>sendVerificationEmailStep\<close> (five attempts,
  base 2000), for a mail service that never delivers: the first four attempts time out, at
  the fifth the server refuses the mailbox.
\<close>

definition failingEmailStep :: "bool StepDefinition" where
  "failingEmailStep =
     \<lparr>sd_id = ''send-verification-email'', sd_name = ''Send Verification Email'',
      sd_handler = (\<lambda>ctx getState e.
         \<lparr>hr_logs = [(''Preparing to send verification email'', ctx_input ctx),
                     (''Email sending failed'', JUndefined)],
          hr_sets = [],
          hr_outcome = Throws (if ctx_attempt ctx < 5
                               then ''Failed to send verification email: connection timed out''
                               else ''Failed to send verification email: mailbox unavailable''),
          hr_elapsed = 3, hr_env = e\<rparr>),
      sd_retryPolicy = Some \<lparr>rp_maxAttempts = Some 5, rp_backoffMs = Some 2000\<rparr>\<rparr>"

definition userSignupWorkflow :: "bool WorkflowDefinition" where
  "userSignupWorkflow = \<lparr>wd_id = ''user-signup'', wd_name = ''User Signup Workflow'',
      wd_steps = [createUserStep, waitForVerificationStep, aiRiskCheckStep]\<rparr>"

definition riskOnlyWorkflow :: "bool WorkflowDefinition" where
  "riskOnlyWorkflow = \<lparr>wd_id = ''risk-only'', wd_name = ''Risk check alone'',
      wd_steps = [aiRiskCheckStep]\<rparr>"

definition motia :: "bool \<Rightarrow> bool MotiaRuntime" where
  "motia up = registerWorkflow (registerWorkflow
      \<lparr>stepDefinitions = Map.empty, workflowDefinitions = Map.empty, workflowState = Map.empty,
       database = Map.empty, clock = 1000, events = [], env = up\<rparr> userSignupWorkflow) riskOnlyWorkflow"

text \<open>The failing email step, run on its own by the retry executor.\<close>

definition failingEmailRun :: "(js_error + StepResult) \<times> StepExecution \<times> bool MotiaRuntime" where
  "failingEmailRun =
     executeStepWithRetry failingEmailStep (pending_step failingEmailStep) ''e3'' (JObj [])
       (motia True)"

text \<open>
  The execution record that \<open>startWorkflow\<close> builds for the signup workflow under the id
  \<open>e1\<close>, and the state of the scheduler's loop after the first step, where the loop
  arrives at the waiting step.
\<close>

definition signupExecution :: WorkflowExecution where
  "signupExecution =
     \<lparr>we_id = ''e1'', we_workflowId = ''user-signup'', we_status = WRunning,
      we_currentStep = None, we_startedAt = 1000, we_completedAt = None,
      we_steps = map pending_step (wd_steps userSignupWorkflow)\<rparr>"

definition afterCreateUser :: "loop_exit \<times> WorkflowExecution \<times> bool MotiaRuntime" where
  "afterCreateUser =
     step_loop [createUserStep] (signupExecution\<lparr>we_currentStep := None\<rparr>) (JObj []) (motia True)"

definition atWaitStep :: "bool MotiaRuntime" where
  "atWaitStep =
     saveWorkflow (snd (snd afterCreateUser))
       ((fst (snd afterCreateUser))\<lparr>we_currentStep := Some (sd_id waitForVerificationStep)\<rparr>)"

text \<open>
  Runs of the engine on these workflows. \<open>pausedStart\<close>: the signup workflow is started
  and pauses at the waiting step. \<open>failedStart\<close>: the risk check alone is started while the
  service is down, and fails after three attempts. \<open>completedRun\<close>: the risk check alone
  runs to completion.

  The execution that each of the two starts leaves is written once, over the form of its
  dates: \<open>pausedReturned\<close> and \<open>failedReturned\<close> hold \<open>Date\<close> objects, as \<open>startWorkflow\<close>
  hands them to its caller; \<open>pausedExecution\<close> and \<open>failedExecution\<close> hold the ISO strings,
  as the store gives them back.
\<close>

definition pausedStart :: "(js_error + WorkflowExecution) \<times> bool MotiaRuntime" where
  "pausedStart = startWorkflow (motia True) ''e1'' ''user-signup'' (JObj [])"

definition pausedRun :: "(nat \<Rightarrow> jsval) \<Rightarrow> WorkflowExecution" where
  "pausedRun date =
     \<lparr>we_id = ''e1'', we_workflowId = ''user-signup'', we_status = WPaused,
     we_currentStep = Some ''wait-for-verification'', we_startedAt = 1000, we_completedAt = None,
     we_steps =
       [\<lparr>se_stepId = ''create-user'', se_status = Completed, se_attempts = 1,
           se_startedAt = date 1000, se_completedAt = date 1005, se_error = None,
           se_output = JObj [(''userId'', JStr ''u1'')],
           se_logs =
             [\<lparr>log_timestamp = date 1000, log_message = ''Attempt 1/3'', log_data = JUndefined\<rparr>,
              \<lparr>log_timestamp = date 1000, log_message = ''Creating user account'',
                 log_data = JObj []\<rparr>,
              \<lparr>log_timestamp = date 1005, log_message = ''Step completed successfully'',
                 log_data = JUndefined\<rparr>]\<rparr>,
        \<lparr>se_stepId = ''wait-for-verification'', se_status = Running, se_attempts = 1,
           se_startedAt = date 1005, se_completedAt = JUndefined, se_error = None,
           se_output = JUndefined,
           se_logs =
             [\<lparr>log_timestamp = date 1005, log_message = ''Attempt 1/3'', log_data = JUndefined\<rparr>,
              \<lparr>log_timestamp = date 1005, log_message = ''Checking for user verification'',
                 log_data = JObj [(''userId'', JStr ''u1'')]\<rparr>,
              \<lparr>log_timestamp = date 1005,
                 log_message = ''WORKFLOW_PAUSED_WAITING_FOR_SIGNAL: verified'',
                 log_data = JObj [(''userId'', JStr ''u1'')]\<rparr>,
              \<lparr>log_timestamp = date 1006, log_message = ''Workflow paused, waiting for signal'',
                 log_data = JUndefined\<rparr>]\<rparr>,
        \<lparr>se_stepId = ''ai-risk-check'', se_status = Pending, se_attempts = 0,
           se_startedAt = JUndefined, se_completedAt = JUndefined, se_error = None,
           se_output = JUndefined, se_logs = []\<rparr>]\<rparr>"

definition pausedReturned :: WorkflowExecution where
  "pausedReturned = pausedRun JDate"

definition pausedExecution :: WorkflowExecution where
  "pausedExecution = pausedRun (\<lambda>t. JStr (toISOString t))"

definition failedStart :: "(js_error + WorkflowExecution) \<times> bool MotiaRuntime" where
  "failedStart = startWorkflow (motia False) ''e2'' ''risk-only'' (JObj [])"

definition failedRun :: "(nat \<Rightarrow> jsval) \<Rightarrow> WorkflowExecution" where
  "failedRun date =
     \<lparr>we_id = ''e2'', we_workflowId = ''risk-only'', we_status = WFailed,
     we_currentStep = Some ''ai-risk-check'', we_startedAt = 1000, we_completedAt = None,
     we_steps =
       [\<lparr>se_stepId = ''ai-risk-check'', se_status = Failed, se_attempts = 3,
           se_startedAt = date 7014, se_completedAt = date 7021,
           se_error = Some ''AI risk check failed: service unavailable'', se_output = JUndefined,
           se_logs =
             [\<lparr>log_timestamp = date 1000, log_message = ''Attempt 1/3'', log_data = JUndefined\<rparr>,
              \<lparr>log_timestamp = date 1000, log_message = ''Starting AI risk assessment'',
                 log_data = JUndefined\<rparr>,
              \<lparr>log_timestamp = date 1007,
                 log_message = ''Attempt 1 failed: AI risk check failed: service unavailable'',
                 log_data = JUndefined\<rparr>,
              \<lparr>log_timestamp = date 3007, log_message = ''Attempt 2/3'', log_data = JUndefined\<rparr>,
              \<lparr>log_timestamp = date 3007, log_message = ''Starting AI risk assessment'',
                 log_data = JUndefined\<rparr>,
              \<lparr>log_timestamp = date 3014,
                 log_message = ''Attempt 2 failed: AI risk check failed: service unavailable'',
                 log_data = JUndefined\<rparr>,
              \<lparr>log_timestamp = date 7014, log_message = ''Attempt 3/3'', log_data = JUndefined\<rparr>,
              \<lparr>log_timestamp = date 7014, log_message = ''Starting AI risk assessment'',
                 log_data = JUndefined\<rparr>,
              \<lparr>log_timestamp = date 7021,
                 log_message = ''Attempt 3 failed: AI risk check failed: service unavailable'',
                 log_data = JUndefined\<rparr>]\<rparr>]\<rparr>"

definition failedReturned :: WorkflowExecution where
  "failedReturned = failedRun JDate"

definition failedExecution :: WorkflowExecution where
  "failedExecution = failedRun (\<lambda>t. JStr (toISOString t))"

definition riskExecution :: WorkflowExecution where
  "riskExecution =
     \<lparr>we_id = ''e2'', we_workflowId = ''risk-only'', we_status = WRunning,
      we_currentStep = None, we_startedAt = 1000, we_completedAt = None,
      we_steps = map pending_step (wd_steps riskOnlyWorkflow)\<rparr>"

definition completedRun :: "js_error option \<times> WorkflowExecution \<times> bool MotiaRuntime" where
  "completedRun = executeWorkflow (motia True) riskExecution (JObj [])"

text \<open>
  The runtime after a restart of the process: the definitions are registered again, the
  store holds the two executions, the workflow state is empty. \<open>resumedOnce\<close> and
  \<open>resumedTwice\<close>: \<open>executeWorkflow\<close> is called on the paused execution, once and twice,
  with no signal delivered. \<open>rerunFailed\<close>: \<open>executeWorkflow\<close> is called on the failed
  execution when the service is back.
\<close>

definition restarted :: "bool \<Rightarrow> bool MotiaRuntime" where
  "restarted up =
     (saveWorkflow (saveWorkflow (motia up) pausedExecution) failedExecution)\<lparr>clock := 10000\<rparr>"

definition resumedOnce :: "js_error option \<times> WorkflowExecution \<times> bool MotiaRuntime" where
  "resumedOnce = executeWorkflow (restarted True) pausedExecution (JObj [])"

definition resumedTwice :: "js_error option \<times> WorkflowExecution \<times> bool MotiaRuntime" where
  "resumedTwice = executeWorkflow (snd (snd resumedOnce)) (fst (snd resumedOnce)) (JObj [])"

definition rerunFailed :: "js_error option \<times> WorkflowExecution \<times> bool MotiaRuntime" where
  "rerunFailed = executeWorkflow (restarted True) failedExecution (JObj [])"

text \<open>
  The step executions of the two stored executions, and the run in which the paused
  execution is signalled while the service is down.
\<close>

definition createUserDone :: StepExecution where
  "createUserDone = we_steps pausedExecution ! 0"

definition waitPaused :: StepExecution where
  "waitPaused = we_steps pausedExecution ! 1"

definition riskPending :: StepExecution where
  "riskPending = we_steps pausedExecution ! 2"

definition riskFailed :: StepExecution where
  "riskFailed = we_steps failedExecution ! 0"

definition failedResume :: "js_error option \<times> WorkflowExecution option \<times> bool MotiaRuntime" where
  "failedResume =
     signalWorkflow (restarted False) ''e1'' ''verified'' (JObj [(''userId'', JStr ''u1'')])"

section \<open>Auxiliary notions\<close>

text \<open>How a step execution is left, by the way \<open>executeStepWithRetry\<close> ends.\<close>

definition step_outcome_ok :: "js_error + StepResult \<Rightarrow> StepExecution \<Rightarrow> bool" where
  "step_outcome_ok r se' =
     (case r of
        Inr res \<Rightarrow> se_status se' = Completed \<and> se_output se' = sr_output res
      | Inl e \<Rightarrow> if str_includes (message e) PAUSE_MARKER
                 then se_status se' = Running \<and> se_error se' = None
                 else se_status se' = Failed)"

text \<open>Every step of the definition that has a step execution has a completed one.\<close>

definition all_completed :: "'e StepDefinition list \<Rightarrow> WorkflowExecution \<Rightarrow> bool" where
  "all_completed defs ex =
     list_all (\<lambda>d. case findIndex (\<lambda>s. se_stepId s = sd_id d) (we_steps ex) of
                     None \<Rightarrow> True
                   | Some i \<Rightarrow> se_status (we_steps ex ! i) = Completed) defs"

text \<open>The input that the loop carries across steps that are all completed.\<close>

fun carried :: "'e StepDefinition list \<Rightarrow> WorkflowExecution \<Rightarrow> jsval \<Rightarrow> jsval" where
  "carried [] ex inp = inp"
| "carried (d # rest) ex inp =
     (case findIndex (\<lambda>s. se_stepId s = sd_id d) (we_steps ex) of
        None \<Rightarrow> carried rest ex inp
      | Some i \<Rightarrow> carried rest ex (se_output (we_steps ex ! i)))"


section \<open>Basic facts\<close>

lemma str_includes_sublist: "str_includes s p \<longleftrightarrow> sublist p s"
  by (induction s) (auto simp: sublist_Cons_right)

lemma str_includes_append: "str_includes (pre @ p @ post) p"
  by (simp add: str_includes_sublist)

lemma logStep_fields [simp]:
  "se_stepId (logStep now se m d) = se_stepId se"
  "se_status (logStep now se m d) = se_status se"
  "se_attempts (logStep now se m d) = se_attempts se"
  "se_startedAt (logStep now se m d) = se_startedAt se"
  "se_completedAt (logStep now se m d) = se_completedAt se"
  "se_error (logStep now se m d) = se_error se"
  "se_output (logStep now se m d) = se_output se"
  "se_logs (logStep now se m d) = se_logs se @ [\<lparr>log_timestamp = JDate now, log_message = m, log_data = d\<rparr>]"
  by (simp_all add: logStep_def)

lemma apply_logs_fields [simp]:
  "se_stepId (apply_logs now se ls) = se_stepId se"
  "se_status (apply_logs now se ls) = se_status se"
  "se_attempts (apply_logs now se ls) = se_attempts se"
  "se_startedAt (apply_logs now se ls) = se_startedAt se"
  "se_completedAt (apply_logs now se ls) = se_completedAt se"
  "se_error (apply_logs now se ls) = se_error se"
  "se_output (apply_logs now se ls) = se_output se"
  unfolding apply_logs_def
  by (induction ls arbitrary: se; simp add: case_prod_beta)+

lemma setWorkflowState_fields [simp]:
  "stepDefinitions (setWorkflowState rt w k v) = stepDefinitions rt"
  "workflowDefinitions (setWorkflowState rt w k v) = workflowDefinitions rt"
  "database (setWorkflowState rt w k v) = database rt"
  "clock (setWorkflowState rt w k v) = clock rt"
  "events (setWorkflowState rt w k v) = events rt"
  "env (setWorkflowState rt w k v) = env rt"
  by (simp_all add: setWorkflowState_def Let_def)

lemma apply_sets_fields [simp]:
  "stepDefinitions (apply_sets rt w kvs) = stepDefinitions rt"
  "workflowDefinitions (apply_sets rt w kvs) = workflowDefinitions rt"
  "database (apply_sets rt w kvs) = database rt"
  "clock (apply_sets rt w kvs) = clock rt"
  "events (apply_sets rt w kvs) = events rt"
  "env (apply_sets rt w kvs) = env rt"
  unfolding apply_sets_def
  by (induction kvs arbitrary: rt; simp add: case_prod_beta)+

lemma sleep_fields [simp]:
  "stepDefinitions (sleep rt ms) = stepDefinitions rt"
  "workflowDefinitions (sleep rt ms) = workflowDefinitions rt"
  "workflowState (sleep rt ms) = workflowState rt"
  "database (sleep rt ms) = database rt"
  "clock (sleep rt ms) = clock rt + nat ms"
  "events (sleep rt ms) = events rt @ [Slept ms]"
  "env (sleep rt ms) = env rt"
  by (simp_all add: sleep_def)

lemma saveWorkflow_fields [simp]:
  "stepDefinitions (saveWorkflow rt e) = stepDefinitions rt"
  "workflowDefinitions (saveWorkflow rt e) = workflowDefinitions rt"
  "workflowState (saveWorkflow rt e) = workflowState rt"
  "database (saveWorkflow rt e) = (database rt)(we_id e \<mapsto> workflow_row e)"
  "clock (saveWorkflow rt e) = clock rt"
  "events (saveWorkflow rt e) = events rt"
  "env (saveWorkflow rt e) = env rt"
  by (simp_all add: saveWorkflow_def)

lemma attempt_body_pause:
  assumes "hr_outcome (run_handler stepDef workflowId input k rt) = Throws msg"
      and "str_includes msg PAUSE_MARKER"
  shows "\<exists>se' rt'. attempt_body stepDef maxAttempts backoffMs workflowId input k se rt
            = Leave (Inl (Error msg)) se' rt'
          \<and> se_status se' = Running \<and> se_error se' = None \<and> se_attempts se' = k
          \<and> se_stepId se' = se_stepId se
          \<and> log_message (last (se_logs se')) = ''Workflow paused, waiting for signal''
          \<and> events rt' = events rt @ [Invoked (sd_id stepDef) k (Throws msg)]"
  using assms by (simp add: attempt_body_def Let_def)

lemma attempt_body_fail:
  assumes "hr_outcome (run_handler stepDef workflowId input k rt) = Throws msg"
      and "\<not> str_includes msg PAUSE_MARKER"
  shows "\<exists>se' rt'. attempt_body stepDef maxAttempts backoffMs workflowId input k se rt
            = NextAttempt (Error msg) se' rt'
          \<and> se_error se' = Some msg \<and> se_attempts se' = k
          \<and> se_stepId se' = se_stepId se
          \<and> log_message (last (se_logs se')) = ''Attempt '' @ show_int k @ '' failed: '' @ msg
          \<and> events rt' = events rt @ Invoked (sd_id stepDef) k (Throws msg) #
                (if k < maxAttempts then [Slept (backoffMs * k)] else [])"
  using assms by (simp add: attempt_body_def Let_def)


lemma invocations_append [simp]: "invocations (xs @ ys) = invocations xs @ invocations ys"
  by (induction xs rule: invocations.induct) auto

lemma retry_loop_exit:
  "\<not> k \<le> maxA \<Longrightarrow> retry_loop stepDef maxA b w inp k le se rt =
     (Inl (case le of Some e \<Rightarrow> e | None \<Rightarrow> Error ''Step failed after all retries''),
      se\<lparr>se_status := Failed, se_completedAt := JDate (clock rt)\<rparr>, rt)"
  by (subst retry_loop.simps) simp

lemma retry_loop_pause:
  assumes "k \<le> maxA"
      and "hr_outcome (run_handler stepDef w inp k rt) = Throws msg"
      and "str_includes msg PAUSE_MARKER"
  shows "\<exists>se' rt'. retry_loop stepDef maxA b w inp k le se rt = (Inl (Error msg), se', rt')
          \<and> se_status se' = Running \<and> se_error se' = None \<and> se_attempts se' = k
          \<and> se_stepId se' = se_stepId se
          \<and> log_message (last (se_logs se')) = ''Workflow paused, waiting for signal''
          \<and> events rt' = events rt @ [Invoked (sd_id stepDef) k (Throws msg)]"
proof -
  from attempt_body_pause [OF assms(2,3), of maxA b se]
  obtain se' rt' where b: "attempt_body stepDef maxA b w inp k se rt = Leave (Inl (Error msg)) se' rt'"
    and r: "se_status se' = Running" "se_error se' = None" "se_attempts se' = k"
       "se_stepId se' = se_stepId se"
       "log_message (last (se_logs se')) = ''Workflow paused, waiting for signal''"
       "events rt' = events rt @ [Invoked (sd_id stepDef) k (Throws msg)]"
    by blast
  have "retry_loop stepDef maxA b w inp k le se rt = (Inl (Error msg), se', rt')"
    using assms(1) b by (subst retry_loop.simps) simp
  with r show ?thesis by blast
qed

lemma retry_loop_always_fails:
  assumes af: "\<And>ctx st e. \<exists>msg. hr_outcome (sd_handler stepDef ctx st e) = Throws msg
                  \<and> \<not> str_includes msg PAUSE_MARKER"
  shows "k \<le> maxA \<Longrightarrow>
     \<exists>se' rt' evs m st e. retry_loop stepDef maxA b w inp k le se rt = (Inl (Error m), se', rt')
       \<and> se_status se' = Failed \<and> se_attempts se' = maxA
       \<and> se_completedAt se' = JDate (clock rt') \<and> se_error se' = Some m
       \<and> se_stepId se' = se_stepId se
       \<and> events rt' = events rt @ evs \<and> map fst (invocations evs) = [k..maxA]
       \<and> snd (last (invocations evs)) = Throws m
       \<and> hr_outcome (sd_handler stepDef
            \<lparr>ctx_input = inp, ctx_stepId = sd_id stepDef, ctx_workflowId = w, ctx_attempt = maxA\<rparr>
            st e) = Throws m"
  using af
proof (induction stepDef maxA b w inp k le se rt rule: retry_loop.induct)
  case (1 stepDef maxA b w inp k le se rt)
  from "1.prems"(2) obtain msg where
    h: "hr_outcome (run_handler stepDef w inp k rt) = Throws msg" "\<not> str_includes msg PAUSE_MARKER"
    unfolding run_handler_def by blast
  from attempt_body_fail [OF h, of maxA b se]
  obtain se1 rt1 where b: "attempt_body stepDef maxA b w inp k se rt = NextAttempt (Error msg) se1 rt1"
    and r: "se_error se1 = Some msg" "se_attempts se1 = k" "se_stepId se1 = se_stepId se"
       "events rt1 = events rt @ Invoked (sd_id stepDef) k (Throws msg) #
                (if k < maxA then [Slept (b * k)] else [])"
    by blast
  have step: "retry_loop stepDef maxA b w inp k le se rt
                = retry_loop stepDef maxA b w inp (k + 1) (Some (Error msg)) se1 rt1"
    using "1.prems"(1) b by (subst retry_loop.simps) simp
  show ?case
  proof (cases "k + 1 \<le> maxA")
    case True
    from "1.IH" [OF "1.prems"(1) b True "1.prems"(2)]
    obtain se' rt' evs m st e where
      ih: "retry_loop stepDef maxA b w inp (k + 1) (Some (Error msg)) se1 rt1 = (Inl (Error m), se', rt')"
        "se_status se' = Failed" "se_attempts se' = maxA" "se_completedAt se' = JDate (clock rt')"
        "se_error se' = Some m" "se_stepId se' = se_stepId se1"
        "events rt' = events rt1 @ evs" "map fst (invocations evs) = [k + 1..maxA]"
        "snd (last (invocations evs)) = Throws m"
        "hr_outcome (sd_handler stepDef
            \<lparr>ctx_input = inp, ctx_stepId = sd_id stepDef, ctx_workflowId = w, ctx_attempt = maxA\<rparr>
            st e) = Throws m"
      by blast
    from ih(8) True have ne: "invocations evs \<noteq> []" by auto
    let ?evs = "Invoked (sd_id stepDef) k (Throws msg) # (if k < maxA then [Slept (b * k)] else []) @ evs"
    have "events rt' = events rt @ ?evs" using ih(7) r(4) by simp
    moreover have "map fst (invocations ?evs) = [k..maxA]"
      using ih(8) "1.prems"(1) by (simp add: upto_rec1 [of k maxA])
    moreover have "snd (last (invocations ?evs)) = Throws m"
      using ih(9) ne by simp
    moreover have "retry_loop stepDef maxA b w inp k le se rt = (Inl (Error m), se', rt')"
      using step ih(1) by simp
    moreover have "se_stepId se' = se_stepId se" using ih(6) r(3) by simp
    ultimately show ?thesis using ih(2,3,4,5,10) by blast
  next
    case False
    with "1.prems"(1) have eq: "k = maxA" by simp
    let ?evs = "[Invoked (sd_id stepDef) k (Throws msg)]"
    let ?se = "se1\<lparr>se_status := Failed, se_completedAt := JDate (clock rt1)\<rparr>"
    have "retry_loop stepDef maxA b w inp (k + 1) (Some (Error msg)) se1 rt1
            = (Inl (Error msg), ?se, rt1)"
      using False by (simp add: retry_loop_exit)
    then have "retry_loop stepDef maxA b w inp k le se rt = (Inl (Error msg), ?se, rt1)"
      using step by simp
    moreover have "events rt1 = events rt @ ?evs" using r(4) eq by simp
    moreover have "map fst (invocations ?evs) = [k..maxA]" using eq by simp
    moreover have "snd (last (invocations ?evs)) = Throws msg" by simp
    moreover have "se_status ?se = Failed" "se_attempts ?se = maxA"
      "se_completedAt ?se = JDate (clock rt1)" "se_error ?se = Some msg"
      "se_stepId ?se = se_stepId se"
      using r eq by simp_all
    moreover have "hr_outcome (sd_handler stepDef
            \<lparr>ctx_input = inp, ctx_stepId = sd_id stepDef, ctx_workflowId = w, ctx_attempt = maxA\<rparr>
            (getWorkflowState rt w) (env rt)) = Throws msg"
      using h(1) eq by (simp add: run_handler_def)
    ultimately show ?thesis by blast
  qed
qed

lemma findIndex_Some:
  "findIndex P xs = Some i \<Longrightarrow> i < length xs \<and> P (xs ! i) \<and> (\<forall>j<i. \<not> P (xs ! j))"
proof (induction xs arbitrary: i)
  case Nil
  then show ?case by simp
next
  case (Cons x xs)
  show ?case
  proof (cases "P x")
    case True
    with Cons.prems show ?thesis by simp
  next
    case False
    with Cons.prems obtain i' where i': "findIndex P xs = Some i'" "i = Suc i'" by auto
    from Cons.IH [OF i'(1)] False i'(2) show ?thesis by (auto simp: less_Suc_eq_0_disj)
  qed
qed

lemma findIndex_None: "findIndex P xs = None \<longleftrightarrow> (\<forall>x\<in>set xs. \<not> P x)"
  by (induction xs) auto

lemma findIndex_map_cong:
  "map f xs = map f ys \<Longrightarrow> findIndex (\<lambda>s. f s = a) xs = findIndex (\<lambda>s. f s = a) ys"
proof (induction xs arbitrary: ys)
  case Nil
  then show ?case by simp
next
  case (Cons x xs)
  then obtain y ys' where "ys = y # ys'" "f x = f y" "map f xs = map f ys'" by (cases ys) auto
  with Cons.IH [of ys'] show ?case by simp
qed

lemma findIndex_distinct:
  "distinct (map f xs) \<Longrightarrow> i < length xs \<Longrightarrow> findIndex (\<lambda>s. f s = f (xs ! i)) xs = Some i"
proof (induction xs arbitrary: i)
  case Nil
  then show ?case by simp
next
  case (Cons x xs)
  show ?case
  proof (cases i)
    case 0
    then show ?thesis by simp
  next
    case (Suc j)
    with Cons.prems have "j < length xs" by simp
    then have "xs ! j \<in> set xs" by simp
    with Cons.prems(1) have "f (xs ! j) \<noteq> f x" by (auto simp: image_iff)
    note \<open>j < length xs\<close> this
    with Cons.IH [of j] Cons.prems(1) Suc show ?thesis by auto
  qed
qed

lemma attempt_body_Leave_Inr:
  assumes "attempt_body stepDef maxA b w inp k se rt = Leave (Inr res) se' rt'"
  shows "se_status se' = Completed \<and> se_output se' = sr_output res \<and> se_stepId se' = se_stepId se
       \<and> workflowDefinitions rt' = workflowDefinitions rt \<and> database rt' = database rt"
  using assms by (auto simp: attempt_body_def Let_def split: handler_outcome.splits if_splits)

lemma attempt_body_Leave_Inl:
  assumes "attempt_body stepDef maxA b w inp k se rt = Leave (Inl e) se' rt'"
  shows "str_includes (message e) PAUSE_MARKER \<and> se_status se' = Running \<and> se_error se' = None
       \<and> se_stepId se' = se_stepId se
       \<and> workflowDefinitions rt' = workflowDefinitions rt \<and> database rt' = database rt"
  using assms by (auto simp: attempt_body_def Let_def split: handler_outcome.splits if_splits)

lemma attempt_body_NextAttempt:
  assumes "attempt_body stepDef maxA b w inp k se rt = NextAttempt e se' rt'"
  shows "\<not> str_includes (message e) PAUSE_MARKER \<and> se_stepId se' = se_stepId se
       \<and> workflowDefinitions rt' = workflowDefinitions rt \<and> database rt' = database rt"
  using assms by (auto simp: attempt_body_def Let_def split: handler_outcome.splits if_splits)

lemma retry_loop_result:
  "retry_loop stepDef maxA b w inp k le se rt = (r, se', rt') \<Longrightarrow>
   (\<forall>e. le = Some e \<longrightarrow> \<not> str_includes (message e) PAUSE_MARKER) \<Longrightarrow>
   step_outcome_ok r se' \<and> se_stepId se' = se_stepId se
     \<and> workflowDefinitions rt' = workflowDefinitions rt \<and> database rt' = database rt"
proof (induction stepDef maxA b w inp k le se rt rule: retry_loop.induct)
  case (1 stepDef maxA b w inp k le se rt)
  show ?case
  proof (cases "k \<le> maxA")
    case False
    have "\<not> str_includes ''Step failed after all retries'' PAUSE_MARKER"
      by (simp add: PAUSE_MARKER_def)
    with False "1.prems" show ?thesis
      by (auto simp: retry_loop_exit step_outcome_ok_def split: option.splits)
  next
    case True
    show ?thesis
    proof (cases "attempt_body stepDef maxA b w inp k se rt")
      case (Leave r0 se0 rt0)
      with True "1.prems"(1) have eq: "r = r0" "se' = se0" "rt' = rt0"
        by (subst (asm) retry_loop.simps, simp)+
      show ?thesis
      proof (cases r0)
        case (Inl e)
        with attempt_body_Leave_Inl [of stepDef maxA b w inp k se rt e se0 rt0] Leave eq
        show ?thesis by (simp add: step_outcome_ok_def)
      next
        case (Inr res)
        with attempt_body_Leave_Inr [of stepDef maxA b w inp k se rt res se0 rt0] Leave eq
        show ?thesis by (simp add: step_outcome_ok_def)
      qed
    next
      case (NextAttempt e se0 rt0)
      with True "1.prems"(1)
      have nxt: "retry_loop stepDef maxA b w inp (k + 1) (Some e) se0 rt0 = (r, se', rt')"
        by (subst (asm) retry_loop.simps) simp
      from attempt_body_NextAttempt [OF NextAttempt]
      have nb: "\<not> str_includes (message e) PAUSE_MARKER" "se_stepId se0 = se_stepId se"
        "workflowDefinitions rt0 = workflowDefinitions rt" "database rt0 = database rt"
        by simp_all
      from "1.IH" [OF True NextAttempt nxt] nb show ?thesis by simp
    qed
  qed
qed

lemma executeStepWithRetry_result:
  "executeStepWithRetry stepDef se w inp rt = (r, se', rt') \<Longrightarrow>
   step_outcome_ok r se' \<and> se_stepId se' = se_stepId se
     \<and> workflowDefinitions rt' = workflowDefinitions rt \<and> database rt' = database rt"
  unfolding executeStepWithRetry_def
  by (rule retry_loop_result) auto

subsection \<open>The loop of the scheduler\<close>

lemma step_loop_absent:
  "findIndex (\<lambda>s. se_stepId s = sd_id d) (we_steps ex) = None \<Longrightarrow>
   step_loop (d # rest) ex inp rt = step_loop rest ex inp rt"
  by simp

lemma step_loop_completed:
  "findIndex (\<lambda>s. se_stepId s = sd_id d) (we_steps ex) = Some i \<Longrightarrow>
   se_status (we_steps ex ! i) = Completed \<Longrightarrow>
   step_loop (d # rest) ex inp rt = step_loop rest ex (se_output (we_steps ex ! i)) rt"
  by simp

lemma step_loop_run:
  assumes "findIndex (\<lambda>s. se_stepId s = sd_id d) (we_steps ex) = Some i"
      and "se_status (we_steps ex ! i) \<noteq> Completed"
      and "executeStepWithRetry d (we_steps ex ! i) (we_id ex) inp
             (saveWorkflow rt (ex\<lparr>we_currentStep := Some (sd_id d)\<rparr>)) = (r, se', rt2)"
  shows "step_loop (d # rest) ex inp rt =
     (let ex2 = ex\<lparr>we_currentStep := Some (sd_id d), we_steps := list_update (we_steps ex) i se'\<rparr>
      in case r of
           Inr result \<Rightarrow> step_loop rest ex2 (sr_output result) rt2
         | Inl err \<Rightarrow>
             if str_includes (message err) PAUSE_MARKER
             then (Return, ex2\<lparr>we_status := WPaused\<rparr>, saveWorkflow rt2 (ex2\<lparr>we_status := WPaused\<rparr>))
             else (Throw err, ex2, rt2))"
proof -
  from executeStepWithRetry_result [OF assms(3)] have ok: "step_outcome_ok r se'" by simp
  show ?thesis
  proof (cases r)
    case (Inl err)
    with assms show ?thesis by (simp add: Let_def)
  next
    case (Inr result)
    with ok have "se_status se' = Completed" by (simp add: step_outcome_ok_def)
    with Inr assms show ?thesis by (simp add: Let_def)
  qed
qed

lemma step_loop_append:
  "step_loop (xs @ ys) ex inp rt =
     (case step_loop xs ex inp rt of
        (LoopEnd inp', ex', rt') \<Rightarrow> step_loop ys ex' inp' rt'
      | (Return, ex', rt') \<Rightarrow> (Return, ex', rt')
      | (Throw err, ex', rt') \<Rightarrow> (Throw err, ex', rt'))"
proof (induction xs arbitrary: ex inp rt)
  case Nil
  then show ?case by simp
next
  case (Cons d xs)
  show ?case
  proof (cases "findIndex (\<lambda>s. se_stepId s = sd_id d) (we_steps ex)")
    case None
    then show ?thesis using Cons.IH by simp
  next
    case (Some i)
    show ?thesis
    proof (cases "se_status (we_steps ex ! i) = Completed")
      case True
      with Some show ?thesis using Cons.IH by simp
    next
      case False
      obtain r se' rt2 where e: "executeStepWithRetry d (we_steps ex ! i) (we_id ex) inp
             (saveWorkflow rt (ex\<lparr>we_currentStep := Some (sd_id d)\<rparr>)) = (r, se', rt2)"
        by (cases "executeStepWithRetry d (we_steps ex ! i) (we_id ex) inp
             (saveWorkflow rt (ex\<lparr>we_currentStep := Some (sd_id d)\<rparr>))") auto
      show ?thesis
        unfolding append_Cons step_loop_run [OF Some False e]
        by (cases r) (simp_all add: Let_def Cons.IH)
    qed
  qed
qed

text \<open>What the loop keeps.\<close>

lemma step_loop_keeps:
  "step_loop defs ex inp rt = (x, ex', rt') \<Longrightarrow>
     map se_stepId (we_steps ex') = map se_stepId (we_steps ex)
   \<and> we_id ex' = we_id ex \<and> we_workflowId ex' = we_workflowId ex
   \<and> workflowDefinitions rt' = workflowDefinitions rt
   \<and> (\<forall>j. se_status (we_steps ex ! j) = Completed \<longrightarrow> we_steps ex' ! j = we_steps ex ! j)"
proof (induction defs arbitrary: ex inp rt)
  case Nil
  then show ?case by simp
next
  case (Cons d rest)
  show ?case
  proof (cases "findIndex (\<lambda>s. se_stepId s = sd_id d) (we_steps ex)")
    case None
    with Cons.prems have "step_loop rest ex inp rt = (x, ex', rt')" by simp
    from Cons.IH [OF this] show ?thesis .
  next
    case (Some i)
    note fi = findIndex_Some [OF Some]
    show ?thesis
    proof (cases "se_status (we_steps ex ! i) = Completed")
      case True
      with Some Cons.prems have "step_loop rest ex (se_output (we_steps ex ! i)) rt = (x, ex', rt')"
        by simp
      from Cons.IH [OF this] show ?thesis .
    next
      case False
      obtain r se' rt2 where e: "executeStepWithRetry d (we_steps ex ! i) (we_id ex) inp
             (saveWorkflow rt (ex\<lparr>we_currentStep := Some (sd_id d)\<rparr>)) = (r, se', rt2)"
        by (cases "executeStepWithRetry d (we_steps ex ! i) (we_id ex) inp
             (saveWorkflow rt (ex\<lparr>we_currentStep := Some (sd_id d)\<rparr>))") auto
      from executeStepWithRetry_result [OF e]
      have k: "se_stepId se' = se_stepId (we_steps ex ! i)"
        "workflowDefinitions rt2 = workflowDefinitions rt" by simp_all
      let ?ex2 = "ex\<lparr>we_currentStep := Some (sd_id d), we_steps := list_update (we_steps ex) i se'\<rparr>"
      have ids: "map se_stepId (we_steps ?ex2) = map se_stepId (we_steps ex)"
        using k(1) fi by (simp add: map_update list_update_same_conv)
      have same: "\<forall>j. se_status (we_steps ex ! j) = Completed \<longrightarrow> we_steps ?ex2 ! j = we_steps ex ! j"
      proof (intro allI impI)
        fix j assume "se_status (we_steps ex ! j) = Completed"
        with False have "i \<noteq> j" by auto
        then show "we_steps ?ex2 ! j = we_steps ex ! j" by simp
      qed
      have comp: "\<forall>j. se_status (we_steps ex ! j) = Completed \<longrightarrow>
                     se_status (we_steps ?ex2 ! j) = Completed"
        using same by simp
      show ?thesis
      proof (cases r)
        case (Inl err)
        with Cons.prems step_loop_run [OF Some False e, of rest] ids same k(2)
        show ?thesis by (auto simp: Let_def split: if_splits)
      next
        case (Inr result)
        with Cons.prems step_loop_run [OF Some False e, of rest]
        have "step_loop rest ?ex2 (sr_output result) rt2 = (x, ex', rt')" by (simp add: Let_def)
        from Cons.IH [OF this] ids same comp k(2) show ?thesis by auto
      qed
    qed
  qed
qed

lemma all_completed_keeps:
  assumes "all_completed defs ex"
      and "map se_stepId (we_steps ex') = map se_stepId (we_steps ex)"
      and "\<forall>j. se_status (we_steps ex ! j) = Completed \<longrightarrow> we_steps ex' ! j = we_steps ex ! j"
  shows "all_completed defs ex'"
proof -
  have "findIndex (\<lambda>s. se_stepId s = a) (we_steps ex') = findIndex (\<lambda>s. se_stepId s = a) (we_steps ex)"
    for a using assms(2) by (rule findIndex_map_cong)
  with assms(1,3) show ?thesis
    by (auto simp: all_completed_def list_all_iff split: option.splits)
qed

lemma step_loop_LoopEnd:
  "step_loop defs ex inp rt = (LoopEnd out, ex', rt') \<Longrightarrow> all_completed defs ex'"
proof (induction defs arbitrary: ex inp rt)
  case Nil
  then show ?case by (simp add: all_completed_def)
next
  case (Cons d rest)
  have fi_eq: "findIndex (\<lambda>s. se_stepId s = sd_id d) (we_steps ex')
                 = findIndex (\<lambda>s. se_stepId s = sd_id d) (we_steps ex)"
    using step_loop_keeps [OF Cons.prems] by (auto intro: findIndex_map_cong)
  show ?case
  proof (cases "findIndex (\<lambda>s. se_stepId s = sd_id d) (we_steps ex)")
    case None
    with Cons.prems have "step_loop rest ex inp rt = (LoopEnd out, ex', rt')" by simp
    from Cons.IH [OF this] None fi_eq show ?thesis by (simp add: all_completed_def)
  next
    case (Some i)
    note fi = findIndex_Some [OF Some]
    show ?thesis
    proof (cases "se_status (we_steps ex ! i) = Completed")
      case True
      with Some Cons.prems
      have l: "step_loop rest ex (se_output (we_steps ex ! i)) rt = (LoopEnd out, ex', rt')" by simp
      from step_loop_keeps [OF l] True have "se_status (we_steps ex' ! i) = Completed" by simp
      with Cons.IH [OF l] Some fi_eq show ?thesis by (simp add: all_completed_def)
    next
      case False
      obtain r se' rt2 where e: "executeStepWithRetry d (we_steps ex ! i) (we_id ex) inp
             (saveWorkflow rt (ex\<lparr>we_currentStep := Some (sd_id d)\<rparr>)) = (r, se', rt2)"
        by (cases "executeStepWithRetry d (we_steps ex ! i) (we_id ex) inp
             (saveWorkflow rt (ex\<lparr>we_currentStep := Some (sd_id d)\<rparr>))") auto
      let ?ex2 = "ex\<lparr>we_currentStep := Some (sd_id d), we_steps := list_update (we_steps ex) i se'\<rparr>"
      from Cons.prems step_loop_run [OF Some False e, of rest]
      obtain result where r: "r = Inr result"
        and l: "step_loop rest ?ex2 (sr_output result) rt2 = (LoopEnd out, ex', rt')"
        by (cases r) (auto simp: Let_def split: if_splits)
      from executeStepWithRetry_result [OF e] r have "se_status se' = Completed"
        by (simp add: step_outcome_ok_def)
      with fi have "se_status (we_steps ?ex2 ! i) = Completed" by simp
      with step_loop_keeps [OF l] have "se_status (we_steps ex' ! i) = Completed" by simp
      with Cons.IH [OF l] Some fi_eq show ?thesis by (simp add: all_completed_def)
    qed
  qed
qed

text \<open>Steps that are completed are passed over: nothing runs, nothing changes.\<close>

lemma step_loop_skip:
  "all_completed defs ex \<Longrightarrow> step_loop defs ex inp rt = (LoopEnd (carried defs ex inp), ex, rt)"
  by (induction defs arbitrary: inp) (auto simp: all_completed_def split: option.splits)

lemma mirrored_findIndex:
  assumes "map se_stepId steps = map sd_id defs" and "distinct (map sd_id defs)"
      and "i < length defs"
  shows "findIndex (\<lambda>s. se_stepId s = sd_id (defs ! i)) steps = Some i"
proof -
  from assms(1) have len: "length steps = length defs" by (metis length_map)
  from assms(1) assms(3) len have id: "se_stepId (steps ! i) = sd_id (defs ! i)"
    by (metis nth_map)
  from assms(1,2) have "distinct (map se_stepId steps)" by simp
  from findIndex_distinct [OF this, of i] assms(3) len id show ?thesis by simp
qed

lemma carried_snoc:
  "carried (xs @ [d]) ex inp =
     (case findIndex (\<lambda>s. se_stepId s = sd_id d) (we_steps ex) of
        None \<Rightarrow> carried xs ex inp
      | Some i \<Rightarrow> se_output (we_steps ex ! i))"
  by (induction xs arbitrary: inp) (auto split: option.splits)

lemma mirrored_prefix:
  assumes m: "map se_stepId (we_steps ex) = map sd_id defs" and d: "distinct (map sd_id defs)"
      and n: "n \<le> length defs"
      and c: "\<forall>i<n. se_status (we_steps ex ! i) = Completed"
  shows "all_completed (take n defs) ex"
    and "carried (take n defs) ex inp = (if n = 0 then inp else se_output (we_steps ex ! (n - 1)))"
proof -
  show "all_completed (take n defs) ex"
    unfolding all_completed_def list_all_length
  proof (intro allI impI)
    fix i assume "i < length (take n defs)"
    with n have i: "i < n" "i < length defs" by simp_all
    from mirrored_findIndex [OF m d i(2)] c i(1)
    show "case findIndex (\<lambda>s. se_stepId s = sd_id (take n defs ! i)) (we_steps ex) of
            None \<Rightarrow> True | Some j \<Rightarrow> se_status (we_steps ex ! j) = Completed"
      by simp
  qed
  show "carried (take n defs) ex inp = (if n = 0 then inp else se_output (we_steps ex ! (n - 1)))"
  proof (cases n)
    case 0
    then show ?thesis by simp
  next
    case (Suc k)
    with n have k: "k < length defs" by simp
    from Suc k have "take n defs = take k defs @ [defs ! k]" by (simp add: take_Suc_conv_app_nth)
    with mirrored_findIndex [OF m d k] Suc show ?thesis by (simp add: carried_snoc)
  qed
qed

lemma all_completed_steps:
  "we_steps ex' = we_steps ex \<Longrightarrow> all_completed defs ex' = all_completed defs ex"
  by (simp add: all_completed_def cong: option.case_cong)

lemma executeWorkflow_all_completed:
  assumes "workflowDefinitions rt (we_workflowId ex) = Some workflowDef"
      and "all_completed (wd_steps workflowDef) ex"
  shows "executeWorkflow rt ex inp =
     (None,
      ex\<lparr>we_status := WCompleted, we_completedAt := Some (clock rt), we_currentStep := None\<rparr>,
      saveWorkflow rt
        (ex\<lparr>we_status := WCompleted, we_completedAt := Some (clock rt), we_currentStep := None\<rparr>))"
proof -
  have "we_steps (ex\<lparr>we_currentStep := None\<rparr>) = we_steps ex" by simp
  from all_completed_steps [OF this] assms(2)
  have "all_completed (wd_steps workflowDef) (ex\<lparr>we_currentStep := None\<rparr>)" by blast
  from step_loop_skip [OF this] assms(1) show ?thesis
    by (simp add: executeWorkflow_def Let_def)
qed

lemma step_loop_status:
  "step_loop defs ex inp rt = (x, ex', rt') \<Longrightarrow>
     we_status ex' = (if x = Return then WPaused else we_status ex)"
proof (induction defs arbitrary: ex inp rt)
  case Nil
  then show ?case by auto
next
  case (Cons d rest)
  show ?case
  proof (cases "findIndex (\<lambda>s. se_stepId s = sd_id d) (we_steps ex)")
    case None
    with Cons.prems have "step_loop rest ex inp rt = (x, ex', rt')" by simp
    from Cons.IH [OF this] show ?thesis .
  next
    case (Some i)
    show ?thesis
    proof (cases "se_status (we_steps ex ! i) = Completed")
      case True
      with Some Cons.prems have "step_loop rest ex (se_output (we_steps ex ! i)) rt = (x, ex', rt')"
        by simp
      from Cons.IH [OF this] show ?thesis .
    next
      case False
      obtain r se' rt2 where e: "executeStepWithRetry d (we_steps ex ! i) (we_id ex) inp
             (saveWorkflow rt (ex\<lparr>we_currentStep := Some (sd_id d)\<rparr>)) = (r, se', rt2)"
        by (metis prod.collapse)
      let ?ex2 = "ex\<lparr>we_currentStep := Some (sd_id d), we_steps := list_update (we_steps ex) i se'\<rparr>"
      show ?thesis
      proof (cases r)
        case (Inl err)
        with Cons.prems step_loop_run [OF Some False e, of rest]
        show ?thesis by (auto simp: Let_def split: if_splits)
      next
        case (Inr result)
        with Cons.prems step_loop_run [OF Some False e, of rest]
        have "step_loop rest ?ex2 (sr_output result) rt2 = (x, ex', rt')" by (simp add: Let_def)
        from Cons.IH [OF this] show ?thesis by simp
      qed
    qed
  qed
qed

lemma executeWorkflow_via_loop:
  assumes "workflowDefinitions rt (we_workflowId ex) = Some workflowDef"
      and "step_loop (wd_steps workflowDef) (ex\<lparr>we_currentStep := None\<rparr>) inp rt = (x, e1, r1)"
  shows "executeWorkflow rt ex inp =
     (case x of
        LoopEnd out \<Rightarrow>
          (None,
           e1\<lparr>we_status := WCompleted, we_completedAt := Some (clock r1), we_currentStep := None\<rparr>,
           saveWorkflow r1
             (e1\<lparr>we_status := WCompleted, we_completedAt := Some (clock r1),
                 we_currentStep := None\<rparr>))
      | Return \<Rightarrow> (None, e1, r1)
      | Throw e \<Rightarrow> (Some e, e1, r1))"
  using assms by (simp add: executeWorkflow_def Let_def split: loop_exit.splits)

lemma executeWorkflow_completed_result:
  assumes d: "workflowDefinitions rt (we_workflowId ex) = Some workflowDef"
      and r: "executeWorkflow rt ex inp = (err, ex', rt')"
      and s: "we_status ex' = WCompleted"
      and nc: "we_status ex \<noteq> WCompleted"
  shows "all_completed (wd_steps workflowDef) ex' \<and> we_currentStep ex' = None
       \<and> workflowDefinitions rt' (we_workflowId ex') = Some workflowDef \<and> err = None
       \<and> we_workflowId ex' = we_workflowId ex"
proof -
  obtain x e1 r1 where l: "step_loop (wd_steps workflowDef) (ex\<lparr>we_currentStep := None\<rparr>) inp rt
      = (x, e1, r1)" by (metis prod.collapse)
  note k = step_loop_keeps [OF l]
  note st = step_loop_status [OF l]
  note v = executeWorkflow_via_loop [OF d l, unfolded r]
  show ?thesis
  proof (cases x)
    case (LoopEnd out)
    with v have e: "ex' = e1\<lparr>we_status := WCompleted, we_completedAt := Some (clock r1),
        we_currentStep := None\<rparr>" "rt' = saveWorkflow r1 ex'" "err = None"
      by simp_all
    have "we_steps ex' = we_steps e1" unfolding e(1) by simp
    from all_completed_steps [OF this] step_loop_LoopEnd [OF l [unfolded LoopEnd]]
    have "all_completed (wd_steps workflowDef) ex'" by blast
    moreover have "we_currentStep ex' = None" unfolding e(1) by simp
    moreover have "workflowDefinitions rt' (we_workflowId ex') = Some workflowDef"
      using k d unfolding e(2) by (simp add: e(1))
    moreover have "we_workflowId ex' = we_workflowId ex"
      using k unfolding e(1) by simp
    ultimately show ?thesis using e(3) by simp
  next
    case Return
    with v have "ex' = e1" by simp
    with st Return s show ?thesis by simp
  next
    case (Throw e)
    with v have "ex' = e1" by simp
    with st Throw s nc show ?thesis by simp
  qed
qed

lemma step_loop_resume_at:
  assumes m: "map se_stepId (we_steps ex) = map sd_id defs" and d: "distinct (map sd_id defs)"
      and n: "n \<le> length defs"
      and c: "\<forall>i<n. se_status (we_steps ex ! i) = Completed"
  shows "step_loop (take n defs) ex inp rt
          = (LoopEnd (if n = 0 then inp else se_output (we_steps ex ! (n - 1))), ex, rt)"
    and "step_loop defs ex inp rt
          = step_loop (drop n defs) ex (if n = 0 then inp else se_output (we_steps ex ! (n - 1))) rt"
proof -
  note p = mirrored_prefix [OF m d n c]
  show skip: "step_loop (take n defs) ex inp rt
        = (LoopEnd (if n = 0 then inp else se_output (we_steps ex ! (n - 1))), ex, rt)"
    using step_loop_skip [OF p(1), of inp rt] p(2) [of inp] by simp
  have "step_loop (take n defs @ drop n defs) ex inp rt
        = step_loop (drop n defs) ex (if n = 0 then inp else se_output (we_steps ex ! (n - 1))) rt"
    unfolding step_loop_append skip by simp
  then show "step_loop defs ex inp rt
        = step_loop (drop n defs) ex (if n = 0 then inp else se_output (we_steps ex ! (n - 1))) rt"
    by simp
qed

section \<open>Running the example\<close>

text \<open>
  The runs of the example are evaluated by the simplifier from the definitions of the
  engine. The stored executions and the definitions of the example stay folded: only
  their fields are given, so that the terms stay small.
\<close>

lemmas engine_defs =
  saveWorkflow_def getWorkflow_def logStep_def
  getWorkflowState_def setWorkflowState_def sleep_def run_handler_def apply_logs_def
  apply_sets_def attempt_body_def retry_loop.simps maxAttempts_of_def backoffMs_of_def
  executeStepWithRetry_def executeWorkflow_def pending_step_def startWorkflow_def
  signalWorkflow_def show_int_def show_nat.simps digit_char_def PAUSE_MARKER_def Let_def

lemma json_step_fields:
  "se_stepId (json_step s) = se_stepId s"
  "se_status (json_step s) = se_status s"
  "se_attempts (json_step s) = se_attempts s"
  "se_error (json_step s) = se_error s"
  "se_output (json_step s) = json_roundtrip (se_output s)"
  "se_startedAt (json_step s) = json_roundtrip (se_startedAt s)"
  "se_completedAt (json_step s) = json_roundtrip (se_completedAt s)"
  "se_logs (json_step s) = map json_log (se_logs s)"
  by (simp_all add: json_step_def)

lemma stored_fields:
  "we_id (row_workflow (workflow_row e)) = we_id e"
  "we_workflowId (row_workflow (workflow_row e)) = we_workflowId e"
  "we_status (row_workflow (workflow_row e)) = we_status e"
  "we_startedAt (row_workflow (workflow_row e)) = we_startedAt e"
  "we_completedAt (row_workflow (workflow_row e)) = we_completedAt e"
  "we_steps (row_workflow (workflow_row e)) = map json_step (we_steps e)"
  "we_currentStep (row_workflow (workflow_row e))
     = (case we_currentStep e of None \<Rightarrow> None | Some c \<Rightarrow> if c = [] then None else Some c)"
  by (simp_all add: row_workflow_def workflow_row_def split: option.splits)

lemma getWorkflow_saveWorkflow:
  "getWorkflow (saveWorkflow rt e) i
     = (if i = we_id e then Some (row_workflow (workflow_row e)) else getWorkflow rt i)"
  by (simp add: getWorkflow_def saveWorkflow_def)

lemma stored_examples:
  "row_workflow (workflow_row pausedReturned) = pausedExecution"
  "row_workflow (workflow_row pausedExecution) = pausedExecution"
  "row_workflow (workflow_row failedReturned) = failedExecution"
  "row_workflow (workflow_row failedExecution) = failedExecution"
  by (simp_all add: row_workflow_def workflow_row_def pausedReturned_def pausedExecution_def
      pausedRun_def failedReturned_def failedExecution_def failedRun_def json_step_def
      json_log_def)

lemma workflow_steps:
  "wd_steps userSignupWorkflow = [createUserStep, waitForVerificationStep, aiRiskCheckStep]"
  "wd_steps riskOnlyWorkflow = [aiRiskCheckStep]"
  by (simp_all add: userSignupWorkflow_def riskOnlyWorkflow_def)

lemma step_fields:
  "sd_id createUserStep = ''create-user''"
  "sd_id waitForVerificationStep = ''wait-for-verification''"
  "sd_id aiRiskCheckStep = ''ai-risk-check''"
  "sd_retryPolicy createUserStep = Some \<lparr>rp_maxAttempts = Some 3, rp_backoffMs = Some 500\<rparr>"
  "sd_retryPolicy waitForVerificationStep = None"
  "sd_retryPolicy aiRiskCheckStep = Some \<lparr>rp_maxAttempts = Some 3, rp_backoffMs = Some 2000\<rparr>"
  by (simp_all add: createUserStep_def waitForVerificationStep_def aiRiskCheckStep_def)

lemma step_handlers:
  "sd_handler aiRiskCheckStep ctx st e =
     (if e then
           \<lparr>hr_logs = [(''Starting AI risk assessment'', JUndefined)], hr_sets = [],
            hr_outcome = Returns \<lparr>sr_output = JObj (obj_set ''riskDecision'' (JStr ''ALLOW'')
                                      (js_spread (ctx_input ctx))), sr_next = None\<rparr>,
            hr_elapsed = 7, hr_env = e\<rparr>
         else
           \<lparr>hr_logs = [(''Starting AI risk assessment'', JUndefined)], hr_sets = [],
            hr_outcome = Throws ''AI risk check failed: service unavailable'',
            hr_elapsed = 7, hr_env = e\<rparr>)"
  "sd_handler waitForVerificationStep ctx st e =
        (let userId = obj_get ''userId'' (ctx_input ctx);
             verificationSignal = st ''signal:verified''
         in if \<not> falsy verificationSignal \<and> obj_get ''userId'' verificationSignal = userId then
              \<lparr>hr_logs = [(''Checking for user verification'', JObj [(''userId'', userId)]),
                          (''Verification signal received, proceeding'', JObj [(''userId'', userId)])],
               hr_sets = [],
               hr_outcome = Returns
                 \<lparr>sr_output = JObj (obj_set ''verifiedAt'' (obj_get ''timestamp'' verificationSignal)
                                (obj_set ''verified'' (JBool True) (js_spread (ctx_input ctx)))),
                  sr_next = None\<rparr>,
               hr_elapsed = 1, hr_env = e\<rparr>
            else
              \<lparr>hr_logs = [(''Checking for user verification'', JObj [(''userId'', userId)]),
                          (''WORKFLOW_PAUSED_WAITING_FOR_SIGNAL: verified'', JObj [(''userId'', userId)])],
               hr_sets = [(''waitingForVerification'', JBool True), (''waitingUserId'', userId)],
               hr_outcome = Throws ''WORKFLOW_PAUSED_WAITING_FOR_SIGNAL:verified'',
               hr_elapsed = 1, hr_env = e\<rparr>)"
  by (simp_all add: aiRiskCheckStep_def waitForVerificationStep_def)

lemma paused_fields:
  "we_id pausedExecution = ''e1''"
  "we_workflowId pausedExecution = ''user-signup''"
  "we_status pausedExecution = WPaused"
  "we_currentStep pausedExecution = Some ''wait-for-verification''"
  "we_steps pausedExecution = [createUserDone, waitPaused, riskPending]"
  by (simp_all add: pausedExecution_def pausedRun_def createUserDone_def waitPaused_def
      riskPending_def)

lemma paused_steps:
  "se_stepId createUserDone = ''create-user''" "se_status createUserDone = Completed"
  "se_output createUserDone = JObj [(''userId'', JStr ''u1'')]"
  "se_stepId waitPaused = ''wait-for-verification''" "se_status waitPaused = Running"
  "se_stepId riskPending = ''ai-risk-check''" "se_status riskPending = Pending"
  by (simp_all add: pausedExecution_def pausedRun_def createUserDone_def waitPaused_def
      riskPending_def)

lemma failed_fields:
  "we_id failedExecution = ''e2''"
  "we_workflowId failedExecution = ''risk-only''"
  "we_status failedExecution = WFailed"
  "we_currentStep failedExecution = Some ''ai-risk-check''"
  "we_steps failedExecution = [riskFailed]"
  "se_stepId riskFailed = ''ai-risk-check''" "se_status riskFailed = Failed"
  by (simp_all add: failedExecution_def failedRun_def riskFailed_def)

lemma restarted_fields:
  "workflowDefinitions (restarted up) ''user-signup'' = Some userSignupWorkflow"
  "workflowDefinitions (restarted up) ''risk-only'' = Some riskOnlyWorkflow"
  "database (restarted up) ''e1'' = Some (workflow_row pausedExecution)"
  "database (restarted up) ''e2'' = Some (workflow_row failedExecution)"
  "getWorkflow (restarted up) ''e1'' = Some pausedExecution"
  "getWorkflow (restarted up) ''e2'' = Some failedExecution"
  "workflowState (restarted up) = Map.empty"
  "clock (restarted up) = 10000"
  "events (restarted up) = []"
  "env (restarted up) = up"
  by (simp_all add: restarted_def motia_def registerWorkflow_def userSignupWorkflow_def
      riskOnlyWorkflow_def saveWorkflow_def getWorkflow_def stored_examples paused_fields
      failed_fields)

lemmas sym = engine_defs stored_examples restarted_fields workflow_steps step_fields
  step_handlers paused_fields paused_steps obj_get_def


lemma motia_fields:
  "workflowDefinitions (motia up) ''user-signup'' = Some userSignupWorkflow"
  "workflowDefinitions (motia up) ''risk-only'' = Some riskOnlyWorkflow"
  "database (motia up) = Map.empty"
  "workflowState (motia up) = Map.empty"
  "clock (motia up) = 1000"
  "events (motia up) = []"
  "env (motia up) = up"
  by (simp_all add: motia_def registerWorkflow_def userSignupWorkflow_def riskOnlyWorkflow_def)

lemma risk_fields:
  "we_id riskExecution = ''e2''"
  "we_workflowId riskExecution = ''risk-only''"
  "we_status riskExecution = WRunning"
  "we_steps riskExecution = [pending_step aiRiskCheckStep]"
  by (simp_all add: riskExecution_def workflow_steps)

lemma returned_ids:
  "we_id pausedReturned = ''e1''" "we_status pausedReturned = WPaused"
  "we_id failedReturned = ''e2''" "we_status failedReturned = WFailed"
  by (simp_all add: pausedReturned_def pausedRun_def failedReturned_def failedRun_def)

lemma pausedStart_value:
  "pausedStart = (Inr pausedReturned, saveWorkflow (snd pausedStart) pausedReturned)"
  by (simp add: pausedStart_def pausedReturned_def pausedRun_def engine_defs motia_fields
      workflow_steps step_fields step_handlers createUserStep_def obj_get_def)

lemma pausedStart_result:
  "fst pausedStart = Inr pausedReturned"
  "getWorkflow (snd pausedStart) ''e1'' = Some pausedExecution"
proof -
  show "fst pausedStart = Inr pausedReturned"
    using pausedStart_value by (metis fst_conv)
  have "snd pausedStart = saveWorkflow (snd pausedStart) pausedReturned"
    using pausedStart_value by (metis snd_conv)
  then have "getWorkflow (snd pausedStart) ''e1''
      = getWorkflow (saveWorkflow (snd pausedStart) pausedReturned) ''e1''"
    by simp
  also have "\<dots> = Some pausedExecution"
    by (simp add: getWorkflow_saveWorkflow stored_examples returned_ids)
  finally show "getWorkflow (snd pausedStart) ''e1'' = Some pausedExecution" .
qed

lemma failedStart_value:
  "failedStart = (Inr failedReturned, saveWorkflow (snd failedStart) failedReturned)"
  by (simp add: failedStart_def failedReturned_def failedRun_def engine_defs motia_fields
      workflow_steps step_fields step_handlers)

lemma failedStart_result:
  "fst failedStart = Inr failedReturned"
  "getWorkflow (snd failedStart) ''e2'' = Some failedExecution"
proof -
  show "fst failedStart = Inr failedReturned"
    using failedStart_value by (metis fst_conv)
  have "snd failedStart = saveWorkflow (snd failedStart) failedReturned"
    using failedStart_value by (metis snd_conv)
  then have "getWorkflow (snd failedStart) ''e2''
      = getWorkflow (saveWorkflow (snd failedStart) failedReturned) ''e2''"
    by simp
  also have "\<dots> = Some failedExecution"
    by (simp add: getWorkflow_saveWorkflow stored_examples returned_ids)
  finally show "getWorkflow (snd failedStart) ''e2'' = Some failedExecution" .
qed

section \<open>The retry executor\<close>

text \<open>The run of the failing email step: five attempts, the sleeps between them.\<close>

lemma failingEmail_fields:
  "sd_id failingEmailStep = ''send-verification-email''"
  "sd_retryPolicy failingEmailStep = Some \<lparr>rp_maxAttempts = Some 5, rp_backoffMs = Some 2000\<rparr>"
  "sd_handler failingEmailStep ctx st e =
         \<lparr>hr_logs = [(''Preparing to send verification email'', ctx_input ctx),
                     (''Email sending failed'', JUndefined)],
          hr_sets = [],
          hr_outcome = Throws (if ctx_attempt ctx < 5
                               then ''Failed to send verification email: connection timed out''
                               else ''Failed to send verification email: mailbox unavailable''),
          hr_elapsed = 3, hr_env = e\<rparr>"
  by (simp_all add: failingEmailStep_def)

lemma failingEmail_ordinary:
  "\<exists>msg. hr_outcome (sd_handler failingEmailStep ctx st e) = Throws msg
        \<and> \<not> str_includes msg PAUSE_MARKER"
  by (simp add: failingEmail_fields PAUSE_MARKER_def)



lemma failingEmailRun_result:
  "fst failingEmailRun = Inl (Error ''Failed to send verification email: mailbox unavailable'')"
  "se_status (fst (snd failingEmailRun)) = Failed"
  "se_attempts (fst (snd failingEmailRun)) = 5"
  "se_error (fst (snd failingEmailRun))
     = Some ''Failed to send verification email: mailbox unavailable''"
  "se_completedAt (fst (snd failingEmailRun)) = JDate 21015"
  "clock (snd (snd failingEmailRun)) = 21015"
  "events (snd (snd failingEmailRun))
     = [Invoked ''send-verification-email'' 1
          (Throws ''Failed to send verification email: connection timed out''),
        Slept 2000,
        Invoked ''send-verification-email'' 2
          (Throws ''Failed to send verification email: connection timed out''),
        Slept 4000,
        Invoked ''send-verification-email'' 3
          (Throws ''Failed to send verification email: connection timed out''),
        Slept 6000,
        Invoked ''send-verification-email'' 4
          (Throws ''Failed to send verification email: connection timed out''),
        Slept 8000,
        Invoked ''send-verification-email'' 5
          (Throws ''Failed to send verification email: mailbox unavailable'')]"
  by (simp_all add: failingEmailRun_def engine_defs motia_fields failingEmail_fields)



text \<open>
  C2. Take a step whose retry policy gives \<open>maxAttempts\<close>, at least one, and whose handler
  throws an ordinary error on every invocation. Run through \<open>executeStepWithRetry\<close>, the
  step ends with status \<open>failed\<close>, \<open>attempts = maxAttempts\<close>, \<open>completedAt\<close> set to the
  time of the end, and its \<open>error\<close> field holding the message of the last failure: the
  message that the handler of the step has thrown at attempt \<open>maxAttempts\<close>, which is also
  the error thrown to the caller. The handler has been invoked exactly \<open>maxAttempts\<close>
  times, for the attempts \<open>1, \<dots>, maxAttempts\<close> in this order.
\<close>

theorem always_failing_step_exhausts_retries:
  assumes policy: "sd_retryPolicy stepDef = Some policy"
      and maxAttempts: "rp_maxAttempts policy = Some maxAttempts"
      and one: "1 \<le> maxAttempts"
      and always: "\<And>ctx st e. \<exists>msg. hr_outcome (sd_handler stepDef ctx st e) = Throws msg
                  \<and> \<not> str_includes msg PAUSE_MARKER"
  shows "\<exists>se' rt' evs m st e.
           executeStepWithRetry stepDef se workflowId input rt = (Inl (Error m), se', rt')
         \<and> se_status se' = Failed
         \<and> se_attempts se' = maxAttempts
         \<and> se_completedAt se' = JDate (clock rt')
         \<and> se_error se' = Some m
         \<and> events rt' = events rt @ evs
         \<and> map fst (invocations evs) = [1..maxAttempts]
         \<and> snd (last (invocations evs)) = Throws m
         \<and> hr_outcome (sd_handler stepDef
              \<lparr>ctx_input = input, ctx_stepId = sd_id stepDef, ctx_workflowId = workflowId,
               ctx_attempt = maxAttempts\<rparr> st e) = Throws m"
proof -
  have m: "maxAttempts_of stepDef = maxAttempts"
    using policy maxAttempts by (simp add: maxAttempts_of_def)
  from retry_loop_always_fails [of stepDef 1 maxAttempts "backoffMs_of stepDef"
      workflowId input None se rt, OF always one]
  show ?thesis unfolding executeStepWithRetry_def m by blast
qed

theorem always_failing_step_exhausts_retries_witness:
  "sd_retryPolicy failingEmailStep = Some \<lparr>rp_maxAttempts = Some 5, rp_backoffMs = Some 2000\<rparr>
   \<and> (1::int) \<le> 5
   \<and> (\<forall>ctx st e. \<exists>msg. hr_outcome (sd_handler failingEmailStep ctx st e) = Throws msg
        \<and> \<not> str_includes msg PAUSE_MARKER)
   \<and> (\<exists>se' rt' evs m st e.
         failingEmailRun = (Inl (Error m), se', rt')
       \<and> se_status se' = Failed \<and> se_attempts se' = 5
       \<and> se_completedAt se' = JDate (clock rt')
       \<and> se_error se' = Some m
       \<and> events rt' = evs \<and> map fst (invocations evs) = [1, 2, 3, 4, 5]
       \<and> snd (last (invocations evs)) = Throws m
       \<and> hr_outcome (sd_handler failingEmailStep
              \<lparr>ctx_input = JObj [], ctx_stepId = ''send-verification-email'',
               ctx_workflowId = ''e3'', ctx_attempt = 5\<rparr> st e) = Throws m)
   \<and> fst failingEmailRun = Inl (Error ''Failed to send verification email: mailbox unavailable'')
   \<and> se_status (fst (snd failingEmailRun)) = Failed
   \<and> se_attempts (fst (snd failingEmailRun)) = 5
   \<and> se_completedAt (fst (snd failingEmailRun)) = JDate 21015
   \<and> se_error (fst (snd failingEmailRun))
       = Some ''Failed to send verification email: mailbox unavailable''
   \<and> invocations (events (snd (snd failingEmailRun)))
       = [(1, Throws ''Failed to send verification email: connection timed out''),
          (2, Throws ''Failed to send verification email: connection timed out''),
          (3, Throws ''Failed to send verification email: connection timed out''),
          (4, Throws ''Failed to send verification email: connection timed out''),
          (5, Throws ''Failed to send verification email: mailbox unavailable'')]"
proof -
  have p: "rp_maxAttempts \<lparr>rp_maxAttempts = Some 5, rp_backoffMs = Some 2000\<rparr> = Some 5"
    by simp
  have one: "(1::int) \<le> 5" by simp
  have u: "[1..5::int] = [1, 2, 3, 4, 5]" by (simp add: upto_rec1)
  have ev: "events (motia True) = []" by (simp add: motia_fields)
  have h: "\<forall>ctx st e. \<exists>msg. hr_outcome (sd_handler failingEmailStep ctx st e) = Throws msg
        \<and> \<not> str_includes msg PAUSE_MARKER"
    using failingEmail_ordinary by blast
  from always_failing_step_exhausts_retries [OF failingEmail_fields(2) p one failingEmail_ordinary,
      of "pending_step failingEmailStep" "''e3''" "JObj []" "motia True",
      folded failingEmailRun_def, unfolded u ev failingEmail_fields(1) append_Nil]
  have A: "\<exists>se' rt' evs m st e.
         failingEmailRun = (Inl (Error m), se', rt')
       \<and> se_status se' = Failed \<and> se_attempts se' = 5
       \<and> se_completedAt se' = JDate (clock rt')
       \<and> se_error se' = Some m
       \<and> events rt' = evs \<and> map fst (invocations evs) = [1, 2, 3, 4, 5]
       \<and> snd (last (invocations evs)) = Throws m
       \<and> hr_outcome (sd_handler failingEmailStep
              \<lparr>ctx_input = JObj [], ctx_stepId = ''send-verification-email'',
               ctx_workflowId = ''e3'', ctx_attempt = 5\<rparr> st e) = Throws m" .
  have i: "invocations (events (snd (snd failingEmailRun)))
       = [(1, Throws ''Failed to send verification email: connection timed out''),
          (2, Throws ''Failed to send verification email: connection timed out''),
          (3, Throws ''Failed to send verification email: connection timed out''),
          (4, Throws ''Failed to send verification email: connection timed out''),
          (5, Throws ''Failed to send verification email: mailbox unavailable'')]"
    unfolding failingEmailRun_result(7) by simp
  show ?thesis
    using failingEmail_fields(2) one h A failingEmailRun_result(1,2,3,5,4) i
    by (simp only: simp_thms)
qed

section \<open>Pausing\<close>

lemmas run_defs = engine_defs motia_fields workflow_steps step_fields step_handlers
  createUserStep_def obj_get_def

lemma motia_signup: "workflowDefinitions (motia up) ''user-signup'' = Some userSignupWorkflow"
  by (simp add: motia_def registerWorkflow_def userSignupWorkflow_def riskOnlyWorkflow_def)

lemma signup_split:
  "wd_steps userSignupWorkflow = [createUserStep] @ waitForVerificationStep # [aiRiskCheckStep]"
  by (simp add: userSignupWorkflow_def)

lemma afterCreateUser_exit: "fst afterCreateUser = LoopEnd (JObj [(''userId'', JStr ''u1'')])"
  by (simp add: afterCreateUser_def signupExecution_def run_defs)

lemma afterCreateUser_eq:
  "step_loop [createUserStep] (signupExecution\<lparr>we_currentStep := None\<rparr>) (JObj []) (motia True)
     = (LoopEnd (JObj [(''userId'', JStr ''u1'')]), fst (snd afterCreateUser), snd (snd afterCreateUser))"
  using afterCreateUser_exit unfolding afterCreateUser_def [symmetric]
  by (metis prod.collapse)

lemma afterCreateUser_id: "we_id (fst (snd afterCreateUser)) = ''e1''"
  by (simp add: afterCreateUser_def signupExecution_def run_defs)

lemma wait_found:
  "findIndex (\<lambda>s. se_stepId s = sd_id waitForVerificationStep) (we_steps (fst (snd afterCreateUser)))
     = Some 1"
  by (simp add: afterCreateUser_def signupExecution_def run_defs)

lemma wait_pending: "se_status (we_steps (fst (snd afterCreateUser)) ! 1) \<noteq> Completed"
  by (simp add: afterCreateUser_def signupExecution_def run_defs)

lemma atWaitStep_fields:
  "workflowState atWaitStep = Map.empty" "env atWaitStep = True"
  by (simp_all add: atWaitStep_def afterCreateUser_def signupExecution_def run_defs)

lemma wait_pauses:
  "hr_outcome (run_handler waitForVerificationStep (we_id (fst (snd afterCreateUser)))
      (JObj [(''userId'', JStr ''u1'')]) 1 atWaitStep)
     = Throws ''WORKFLOW_PAUSED_WAITING_FOR_SIGNAL:verified''"
  by (simp add: run_handler_def getWorkflowState_def atWaitStep_fields step_handlers step_fields
      obj_get_def Let_def)

lemma wait_message_marker: "str_includes ''WORKFLOW_PAUSED_WAITING_FOR_SIGNAL:verified'' PAUSE_MARKER"
  by (simp add: PAUSE_MARKER_def)

lemma wait_maxAttempts: "maxAttempts_of waitForVerificationStep = 3"
  by (simp add: maxAttempts_of_def waitForVerificationStep_def)

lemma signup_fields:
  "we_id signupExecution = ''e1''"
  "we_workflowId signupExecution = ''user-signup''"
  "we_status signupExecution = WRunning"
  "we_steps signupExecution
     = [pending_step createUserStep, pending_step waitForVerificationStep,
        pending_step aiRiskCheckStep]"
  by (simp_all add: signupExecution_def workflow_steps)

lemma signupRun_value:
  "executeWorkflow (motia True) signupExecution (JObj [])
     = (None, pausedReturned,
        saveWorkflow (snd (snd (executeWorkflow (motia True) signupExecution (JObj []))))
          pausedReturned)"
  by (simp add: signupExecution_def pausedReturned_def pausedRun_def run_defs)

lemma signupRun_events:
  "events (snd (snd (executeWorkflow (motia True) signupExecution (JObj []))))
        = [Invoked ''create-user'' 1
             (Returns \<lparr>sr_output = JObj [(''userId'', JStr ''u1'')], sr_next = None\<rparr>),
           Invoked ''wait-for-verification'' 1
             (Throws ''WORKFLOW_PAUSED_WAITING_FOR_SIGNAL:verified'')]"
  by (simp add: signupExecution_def run_defs)

lemma wait_retry_exit:
  "fst (executeStepWithRetry waitForVerificationStep (we_steps (fst (snd afterCreateUser)) ! 1)
      (we_id (fst (snd afterCreateUser))) (JObj [(''userId'', JStr ''u1'')]) atWaitStep)
   = Inl (Error ''WORKFLOW_PAUSED_WAITING_FOR_SIGNAL:verified'')"
  by (simp add: executeStepWithRetry_def maxAttempts_of_def backoffMs_of_def retry_loop.simps
      attempt_body_def wait_pauses step_fields PAUSE_MARKER_def Let_def)

text \<open>
  C1. The scheduler has arrived at a step that is not completed, and the retry executor
  is at attempt \<open>k\<close> of it, whatever \<open>k\<close> is. If the handler now throws a pause request
  (an error whose message contains the pause marker), then the retry executor leaves at
  once with that error: the handler invocation is the last event (no further attempt, no
  sleep), the step's status is \<open>running\<close>, its last log entry says that the workflow is
  paused. \<open>executeWorkflow\<close> then returns without an error, having set the execution's
  status to \<open>paused\<close> and saved the record; nothing happens after the save, whatever steps
  follow in the definition. What the store then gives back under the execution's id is
  the record as it comes back from its row: its status is \<open>paused\<close> and its steps have
  the statuses they had, the one of the pausing step being \<open>running\<close>.
\<close>

theorem pause_request_suspends_workflow:
  assumes defs: "workflowDefinitions rt0 (we_workflowId execution0) = Some workflowDef"
      and split: "wd_steps workflowDef = before @ stepDef # rest"
      and before: "step_loop before (execution0\<lparr>we_currentStep := None\<rparr>) initialInput rt0
                     = (LoopEnd currentInput, execution, rt)"
      and found: "findIndex (\<lambda>s. se_stepId s = sd_id stepDef) (we_steps execution) = Some i"
      and notc: "se_status (we_steps execution ! i) \<noteq> Completed"
      and reach: "executeStepWithRetry stepDef (we_steps execution ! i) (we_id execution) currentInput
                    (saveWorkflow rt (execution\<lparr>we_currentStep := Some (sd_id stepDef)\<rparr>))
                  = retry_loop stepDef (maxAttempts_of stepDef) (backoffMs_of stepDef)
                      (we_id execution) currentInput k lastError se_k rt_k"
      and k: "k \<le> maxAttempts_of stepDef"
      and pause: "hr_outcome (run_handler stepDef (we_id execution) currentInput k rt_k) = Throws msg"
      and marker: "str_includes msg PAUSE_MARKER"
  shows "\<exists>se' rt'.
           retry_loop stepDef (maxAttempts_of stepDef) (backoffMs_of stepDef)
               (we_id execution) currentInput k lastError se_k rt_k = (Inl (Error msg), se', rt')
         \<and> se_status se' = Running \<and> se_attempts se' = k
         \<and> log_message (last (se_logs se')) = ''Workflow paused, waiting for signal''
         \<and> events rt' = events rt_k @ [Invoked (sd_id stepDef) k (Throws msg)]
         \<and> (let paused = execution\<lparr>we_currentStep := Some (sd_id stepDef),
                              we_steps := list_update (we_steps execution) i se',
                              we_status := WPaused\<rparr>
            in executeWorkflow rt0 execution0 initialInput = (None, paused, saveWorkflow rt' paused)
             \<and> getWorkflow (saveWorkflow rt' paused) (we_id paused)
                 = Some (row_workflow (workflow_row paused))
             \<and> we_status (row_workflow (workflow_row paused)) = WPaused
             \<and> map se_status (we_steps (row_workflow (workflow_row paused)))
                 = list_update (map se_status (we_steps execution)) i Running
             \<and> events (saveWorkflow rt' paused) = events rt')"
proof -
  from retry_loop_pause [OF k pause marker, of "backoffMs_of stepDef" lastError se_k]
  obtain se' rt' where
    r: "retry_loop stepDef (maxAttempts_of stepDef) (backoffMs_of stepDef)
          (we_id execution) currentInput k lastError se_k rt_k = (Inl (Error msg), se', rt')"
       "se_status se' = Running" "se_attempts se' = k"
       "log_message (last (se_logs se')) = ''Workflow paused, waiting for signal''"
       "events rt' = events rt_k @ [Invoked (sd_id stepDef) k (Throws msg)]"
    by blast
  let ?paused = "execution\<lparr>we_currentStep := Some (sd_id stepDef),
                   we_steps := list_update (we_steps execution) i se', we_status := WPaused\<rparr>"
  from reach r(1) have e: "executeStepWithRetry stepDef (we_steps execution ! i) (we_id execution)
       currentInput (saveWorkflow rt (execution\<lparr>we_currentStep := Some (sd_id stepDef)\<rparr>))
         = (Inl (Error msg), se', rt')" by simp
  have one: "step_loop (stepDef # rest) execution currentInput rt
               = (Return, ?paused, saveWorkflow rt' ?paused)"
    using step_loop_run [OF found notc e, of rest] marker by (simp add: Let_def)
  have "step_loop (wd_steps workflowDef) (execution0\<lparr>we_currentStep := None\<rparr>) initialInput rt0
          = (Return, ?paused, saveWorkflow rt' ?paused)"
    unfolding split step_loop_append before using one by simp
  then have "executeWorkflow rt0 execution0 initialInput = (None, ?paused, saveWorkflow rt' ?paused)"
    using defs by (simp add: executeWorkflow_def)
  moreover have "getWorkflow (saveWorkflow rt' ?paused) (we_id ?paused)
      = Some (row_workflow (workflow_row ?paused))"
    by (simp add: getWorkflow_saveWorkflow)
  moreover have "we_status (row_workflow (workflow_row ?paused)) = WPaused"
    by (simp add: stored_fields)
  moreover have "map se_status (we_steps (row_workflow (workflow_row ?paused)))
      = list_update (map se_status (we_steps execution)) i Running"
    using r(2) by (simp add: stored_fields json_step_fields comp_def map_update)
  ultimately show ?thesis using r by (simp add: Let_def)
qed

theorem pause_request_suspends_workflow_witness:
  "workflowDefinitions (motia True) (we_workflowId signupExecution) = Some userSignupWorkflow
   \<and> wd_steps userSignupWorkflow = [createUserStep] @ waitForVerificationStep # [aiRiskCheckStep]
   \<and> step_loop [createUserStep] (signupExecution\<lparr>we_currentStep := None\<rparr>) (JObj []) (motia True)
        = (LoopEnd (JObj [(''userId'', JStr ''u1'')]), fst (snd afterCreateUser), snd (snd afterCreateUser))
   \<and> findIndex (\<lambda>s. se_stepId s = sd_id waitForVerificationStep)
        (we_steps (fst (snd afterCreateUser))) = Some 1
   \<and> se_status (we_steps (fst (snd afterCreateUser)) ! 1) \<noteq> Completed
   \<and> (1::int) \<le> maxAttempts_of waitForVerificationStep
   \<and> hr_outcome (run_handler waitForVerificationStep (we_id (fst (snd afterCreateUser)))
        (JObj [(''userId'', JStr ''u1'')]) 1 atWaitStep)
        = Throws ''WORKFLOW_PAUSED_WAITING_FOR_SIGNAL:verified''
   \<and> str_includes ''WORKFLOW_PAUSED_WAITING_FOR_SIGNAL:verified'' PAUSE_MARKER
   \<and> (\<exists>se' (rt' :: bool MotiaRuntime).
         se_status se' = Running \<and> se_attempts se' = 1
       \<and> events rt' = events atWaitStep @ [Invoked (sd_id waitForVerificationStep) 1
                          (Throws ''WORKFLOW_PAUSED_WAITING_FOR_SIGNAL:verified'')]
       \<and> fst (executeWorkflow (motia True) signupExecution (JObj [])) = None
       \<and> we_status (fst (snd (executeWorkflow (motia True) signupExecution (JObj [])))) = WPaused
       \<and> we_steps (fst (snd (executeWorkflow (motia True) signupExecution (JObj []))))
            = list_update (we_steps (fst (snd afterCreateUser))) 1 se'
       \<and> getWorkflow (snd (snd (executeWorkflow (motia True) signupExecution (JObj [])))) ''e1''
            = Some (row_workflow (workflow_row
                (fst (snd (executeWorkflow (motia True) signupExecution (JObj [])))))))
   \<and> fst (snd (executeWorkflow (motia True) signupExecution (JObj []))) = pausedReturned
   \<and> getWorkflow (snd (snd (executeWorkflow (motia True) signupExecution (JObj [])))) ''e1''
        = Some pausedExecution
   \<and> we_status pausedExecution = WPaused
   \<and> map se_status (we_steps pausedExecution) = [Completed, Running, Pending]
   \<and> events (snd (snd (executeWorkflow (motia True) signupExecution (JObj []))))
        = [Invoked ''create-user'' 1
             (Returns \<lparr>sr_output = JObj [(''userId'', JStr ''u1'')], sr_next = None\<rparr>),
           Invoked ''wait-for-verification'' 1
             (Throws ''WORKFLOW_PAUSED_WAITING_FOR_SIGNAL:verified'')]"
proof -
  have wf: "we_workflowId signupExecution = ''user-signup''" by (simp add: signupExecution_def)
  note id = afterCreateUser_id
  have reach: "executeStepWithRetry waitForVerificationStep (we_steps (fst (snd afterCreateUser)) ! 1)
       (we_id (fst (snd afterCreateUser))) (JObj [(''userId'', JStr ''u1'')])
       (saveWorkflow (snd (snd afterCreateUser))
          ((fst (snd afterCreateUser))\<lparr>we_currentStep := Some (sd_id waitForVerificationStep)\<rparr>))
     = retry_loop waitForVerificationStep (maxAttempts_of waitForVerificationStep)
         (backoffMs_of waitForVerificationStep) (we_id (fst (snd afterCreateUser)))
         (JObj [(''userId'', JStr ''u1'')]) 1 None (we_steps (fst (snd afterCreateUser)) ! 1) atWaitStep"
    by (simp add: executeStepWithRetry_def atWaitStep_def)
  have k: "(1::int) \<le> maxAttempts_of waitForVerificationStep" by (simp add: wait_maxAttempts)
  from pause_request_suspends_workflow [OF motia_signup [of True, folded wf] signup_split
      afterCreateUser_eq wait_found wait_pending reach k wait_pauses wait_message_marker,
      unfolded Let_def]
  obtain se' rt' where
    r: "se_status se' = Running" "se_attempts se' = 1"
       "events rt' = events atWaitStep @ [Invoked (sd_id waitForVerificationStep) 1
                          (Throws ''WORKFLOW_PAUSED_WAITING_FOR_SIGNAL:verified'')]"
       "executeWorkflow (motia True) signupExecution (JObj [])
          = (None,
             (fst (snd afterCreateUser))\<lparr>we_currentStep := Some (sd_id waitForVerificationStep),
                we_steps := list_update (we_steps (fst (snd afterCreateUser))) 1 se',
                we_status := WPaused\<rparr>,
             saveWorkflow rt'
               ((fst (snd afterCreateUser))\<lparr>we_currentStep := Some (sd_id waitForVerificationStep),
                  we_steps := list_update (we_steps (fst (snd afterCreateUser))) 1 se',
                  we_status := WPaused\<rparr>))"
       "getWorkflow (saveWorkflow rt'
               ((fst (snd afterCreateUser))\<lparr>we_currentStep := Some (sd_id waitForVerificationStep),
                  we_steps := list_update (we_steps (fst (snd afterCreateUser))) 1 se',
                  we_status := WPaused\<rparr>))
          (we_id ((fst (snd afterCreateUser))\<lparr>we_currentStep := Some (sd_id waitForVerificationStep),
                  we_steps := list_update (we_steps (fst (snd afterCreateUser))) 1 se',
                  we_status := WPaused\<rparr>))
        = Some (row_workflow (workflow_row
             ((fst (snd afterCreateUser))\<lparr>we_currentStep := Some (sd_id waitForVerificationStep),
                  we_steps := list_update (we_steps (fst (snd afterCreateUser))) 1 se',
                  we_status := WPaused\<rparr>)))"
    by blast
  have concl: "\<exists>se' (rt' :: bool MotiaRuntime).
         se_status se' = Running \<and> se_attempts se' = 1
       \<and> events rt' = events atWaitStep @ [Invoked (sd_id waitForVerificationStep) 1
                          (Throws ''WORKFLOW_PAUSED_WAITING_FOR_SIGNAL:verified'')]
       \<and> fst (executeWorkflow (motia True) signupExecution (JObj [])) = None
       \<and> we_status (fst (snd (executeWorkflow (motia True) signupExecution (JObj [])))) = WPaused
       \<and> we_steps (fst (snd (executeWorkflow (motia True) signupExecution (JObj []))))
            = list_update (we_steps (fst (snd afterCreateUser))) 1 se'
       \<and> getWorkflow (snd (snd (executeWorkflow (motia True) signupExecution (JObj [])))) ''e1''
            = Some (row_workflow (workflow_row
                (fst (snd (executeWorkflow (motia True) signupExecution (JObj []))))))"
    apply (rule exI [of _ se'])
    apply (rule exI [of _ rt'])
    apply (simp only: r(4) fst_conv snd_conv)
    apply (intro conjI)
          apply (rule r(1))
         apply (rule r(2))
        apply (rule r(3))
       apply (rule refl)
      apply simp
     apply simp
    using r(5) apply (simp add: id)
    done
  have ret: "fst (snd (executeWorkflow (motia True) signupExecution (JObj []))) = pausedReturned"
    using signupRun_value by (metis fst_conv snd_conv)
  from concl have "getWorkflow (snd (snd (executeWorkflow (motia True) signupExecution (JObj [])))) ''e1''
            = Some (row_workflow (workflow_row
                (fst (snd (executeWorkflow (motia True) signupExecution (JObj []))))))"
    by blast
  then have st: "getWorkflow (snd (snd (executeWorkflow (motia True) signupExecution (JObj [])))) ''e1''
        = Some pausedExecution"
    unfolding ret stored_examples .
  have ps: "map se_status (we_steps pausedExecution) = [Completed, Running, Pending]"
    by (simp add: paused_fields paused_steps)
  have ev: "events (snd (snd (executeWorkflow (motia True) signupExecution (JObj []))))
        = [Invoked ''create-user'' 1
             (Returns \<lparr>sr_output = JObj [(''userId'', JStr ''u1'')], sr_next = None\<rparr>),
           Invoked ''wait-for-verification'' 1
             (Throws ''WORKFLOW_PAUSED_WAITING_FOR_SIGNAL:verified'')]"
    using signupRun_events .
  show ?thesis
    using motia_signup [of True] signup_split afterCreateUser_eq wait_found wait_pending k
      wait_pauses wait_message_marker wf concl ret st paused_fields(3) ps ev
    by (simp only: simp_thms)
qed

text \<open>
  C10. Pause detection looks for the marker anywhere in the message. If the handler throws
  an error whose message is the marker between any two strings, at any attempt of the
  loop, then the body of the loop leaves instead of going on to the next attempt: the
  step's status is \<open>running\<close>, its \<open>error\<close> field is cleared, and the invocation is the
  only event. And when \<open>executeStepWithRetry\<close> throws such an error to the scheduler, the
  step is \<open>running\<close> with no error, and the loop of the scheduler returns with the
  execution's status set to \<open>paused\<close> and saved.
\<close>

theorem pause_detection_by_substring:
  "(k \<le> maxAttempts \<and>
    hr_outcome (run_handler stepDef workflowId input k rt) = Throws (pre @ PAUSE_MARKER @ post)
    \<longrightarrow> (\<exists>se' rt'.
           attempt_body stepDef maxAttempts backoffMs workflowId input k se rt
             = Leave (Inl (Error (pre @ PAUSE_MARKER @ post))) se' rt'
         \<and> retry_loop stepDef maxAttempts backoffMs workflowId input k lastError se rt
             = (Inl (Error (pre @ PAUSE_MARKER @ post)), se', rt')
         \<and> se_status se' = Running \<and> se_error se' = None
         \<and> events rt' = events rt @ [Invoked (sd_id stepDef) k (Throws (pre @ PAUSE_MARKER @ post))]))
   \<and>
   (findIndex (\<lambda>s. se_stepId s = sd_id stepDef) (we_steps execution) = Some i \<and>
    se_status (we_steps execution ! i) \<noteq> Completed \<and>
    executeStepWithRetry stepDef (we_steps execution ! i) (we_id execution) currentInput
      (saveWorkflow rt_s (execution\<lparr>we_currentStep := Some (sd_id stepDef)\<rparr>))
      = (Inl (Error (pre @ PAUSE_MARKER @ post)), se_r, rt_r)
    \<longrightarrow> se_status se_r = Running \<and> se_error se_r = None
      \<and> (let paused = execution\<lparr>we_currentStep := Some (sd_id stepDef),
                           we_steps := list_update (we_steps execution) i se_r,
                           we_status := WPaused\<rparr>
         in step_loop (stepDef # rest) execution currentInput rt_s
              = (Return, paused, saveWorkflow rt_r paused)))"
proof -
  have m: "str_includes (pre @ PAUSE_MARKER @ post) PAUSE_MARKER" by (rule str_includes_append)
  have A: "\<exists>se' rt'.
           attempt_body stepDef maxAttempts backoffMs workflowId input k se rt
             = Leave (Inl (Error (pre @ PAUSE_MARKER @ post))) se' rt'
         \<and> retry_loop stepDef maxAttempts backoffMs workflowId input k lastError se rt
             = (Inl (Error (pre @ PAUSE_MARKER @ post)), se', rt')
         \<and> se_status se' = Running \<and> se_error se' = None
         \<and> events rt' = events rt @ [Invoked (sd_id stepDef) k (Throws (pre @ PAUSE_MARKER @ post))]"
    if a: "k \<le> maxAttempts"
      "hr_outcome (run_handler stepDef workflowId input k rt) = Throws (pre @ PAUSE_MARKER @ post)"
  proof -
    from attempt_body_pause [OF a(2) m, of maxAttempts backoffMs se]
    obtain se' rt' where
      b: "attempt_body stepDef maxAttempts backoffMs workflowId input k se rt
            = Leave (Inl (Error (pre @ PAUSE_MARKER @ post))) se' rt'"
      and r: "se_status se' = Running" "se_error se' = None"
        "events rt' = events rt @ [Invoked (sd_id stepDef) k (Throws (pre @ PAUSE_MARKER @ post))]"
      by blast
    have "retry_loop stepDef maxAttempts backoffMs workflowId input k lastError se rt
            = (Inl (Error (pre @ PAUSE_MARKER @ post)), se', rt')"
      using a(1) b by (subst retry_loop.simps) simp
    with b r show ?thesis by blast
  qed
  have B: "se_status se_r = Running \<and> se_error se_r = None
      \<and> (let paused = execution\<lparr>we_currentStep := Some (sd_id stepDef),
                           we_steps := list_update (we_steps execution) i se_r,
                           we_status := WPaused\<rparr>
         in step_loop (stepDef # rest) execution currentInput rt_s
              = (Return, paused, saveWorkflow rt_r paused))"
    if f: "findIndex (\<lambda>s. se_stepId s = sd_id stepDef) (we_steps execution) = Some i"
      and n: "se_status (we_steps execution ! i) \<noteq> Completed"
      and e: "executeStepWithRetry stepDef (we_steps execution ! i) (we_id execution) currentInput
          (saveWorkflow rt_s (execution\<lparr>we_currentStep := Some (sd_id stepDef)\<rparr>))
          = (Inl (Error (pre @ PAUSE_MARKER @ post)), se_r, rt_r)"
  proof -
    from executeStepWithRetry_result [OF e] m
    have "se_status se_r = Running \<and> se_error se_r = None"
      by (simp add: step_outcome_ok_def)
    moreover from step_loop_run [OF f n e, of rest] m
    have "let paused = execution\<lparr>we_currentStep := Some (sd_id stepDef),
                           we_steps := list_update (we_steps execution) i se_r,
                           we_status := WPaused\<rparr>
         in step_loop (stepDef # rest) execution currentInput rt_s
              = (Return, paused, saveWorkflow rt_r paused)"
      by (simp add: Let_def)
    ultimately show ?thesis by blast
  qed
  from A B show ?thesis by blast
qed

theorem pause_detection_by_substring_witness:
  "(1::int) \<le> 3
   \<and> hr_outcome (run_handler waitForVerificationStep (we_id (fst (snd afterCreateUser)))
        (JObj [(''userId'', JStr ''u1'')]) 1 atWaitStep) = Throws ([] @ PAUSE_MARKER @ '':verified'')
   \<and> findIndex (\<lambda>s. se_stepId s = sd_id waitForVerificationStep)
        (we_steps (fst (snd afterCreateUser))) = Some 1
   \<and> se_status (we_steps (fst (snd afterCreateUser)) ! 1) \<noteq> Completed
   \<and> fst (executeStepWithRetry waitForVerificationStep (we_steps (fst (snd afterCreateUser)) ! 1)
        (we_id (fst (snd afterCreateUser))) (JObj [(''userId'', JStr ''u1'')]) atWaitStep)
        = Inl (Error ([] @ PAUSE_MARKER @ '':verified''))
   \<and> (\<exists>se' rt'.
         retry_loop waitForVerificationStep 3 1000 (we_id (fst (snd afterCreateUser)))
             (JObj [(''userId'', JStr ''u1'')]) 1 None (we_steps (fst (snd afterCreateUser)) ! 1)
             atWaitStep
           = (Inl (Error ([] @ PAUSE_MARKER @ '':verified'')), se', rt')
       \<and> se_status se' = Running \<and> se_error se' = None)
   \<and> (\<exists>se_r rt_r.
         we_status (fst (snd (step_loop [waitForVerificationStep, aiRiskCheckStep]
             (fst (snd afterCreateUser)) (JObj [(''userId'', JStr ''u1'')])
             (snd (snd afterCreateUser))))) = WPaused
       \<and> executeStepWithRetry waitForVerificationStep (we_steps (fst (snd afterCreateUser)) ! 1)
            (we_id (fst (snd afterCreateUser))) (JObj [(''userId'', JStr ''u1'')]) atWaitStep
            = (Inl (Error ([] @ PAUSE_MARKER @ '':verified'')), se_r, rt_r)
       \<and> se_status se_r = Running \<and> se_error se_r = None)"
proof -
  have msg: "''WORKFLOW_PAUSED_WAITING_FOR_SIGNAL:verified'' = [] @ PAUSE_MARKER @ '':verified''"
    by (simp add: PAUSE_MARKER_def)
  note h = wait_pauses [unfolded msg]
  obtain se_r rt_r where e: "executeStepWithRetry waitForVerificationStep
        (we_steps (fst (snd afterCreateUser)) ! 1)
        (we_id (fst (snd afterCreateUser))) (JObj [(''userId'', JStr ''u1'')])
        (saveWorkflow (snd (snd afterCreateUser))
           ((fst (snd afterCreateUser))\<lparr>we_currentStep := Some (sd_id waitForVerificationStep)\<rparr>))
        = (Inl (Error ([] @ PAUSE_MARKER @ '':verified'')), se_r, rt_r)"
    using wait_retry_exit [unfolded msg] unfolding atWaitStep_def by (metis prod.collapse)
  note inst = pause_detection_by_substring [where k = 1 and maxAttempts = 3
      and stepDef = waitForVerificationStep
      and workflowId = "we_id (fst (snd afterCreateUser))"
      and input = "JObj [(''userId'', JStr ''u1'')]" and rt = atWaitStep and pre = "[]"
      and post = "'':verified''" and backoffMs = 1000
      and se = "we_steps (fst (snd afterCreateUser)) ! 1" and lastError = None
      and execution = "fst (snd afterCreateUser)" and i = 1
      and currentInput = "JObj [(''userId'', JStr ''u1'')]" and rt_s = "snd (snd afterCreateUser)"
      and se_r = se_r and rt_r = rt_r and rest = "[aiRiskCheckStep]", unfolded Let_def]
  have le: "(1::int) \<le> 3" by simp
  from inst h le have A: "\<exists>se' rt'.
         retry_loop waitForVerificationStep 3 1000 (we_id (fst (snd afterCreateUser)))
             (JObj [(''userId'', JStr ''u1'')]) 1 None (we_steps (fst (snd afterCreateUser)) ! 1)
             atWaitStep
           = (Inl (Error ([] @ PAUSE_MARKER @ '':verified'')), se', rt')
       \<and> se_status se' = Running \<and> se_error se' = None"
    by blast
  from inst wait_found wait_pending e
  have B: "se_status se_r = Running" "se_error se_r = None"
     "step_loop [waitForVerificationStep, aiRiskCheckStep] (fst (snd afterCreateUser))
        (JObj [(''userId'', JStr ''u1'')]) (snd (snd afterCreateUser))
      = (Return,
         (fst (snd afterCreateUser))\<lparr>we_currentStep := Some (sd_id waitForVerificationStep),
            we_steps := list_update (we_steps (fst (snd afterCreateUser))) 1 se_r,
            we_status := WPaused\<rparr>,
         saveWorkflow rt_r
           ((fst (snd afterCreateUser))\<lparr>we_currentStep := Some (sd_id waitForVerificationStep),
              we_steps := list_update (we_steps (fst (snd afterCreateUser))) 1 se_r,
              we_status := WPaused\<rparr>))"
    by blast+
  have C: "\<exists>se_r rt_r.
         we_status (fst (snd (step_loop [waitForVerificationStep, aiRiskCheckStep]
             (fst (snd afterCreateUser)) (JObj [(''userId'', JStr ''u1'')])
             (snd (snd afterCreateUser))))) = WPaused
       \<and> executeStepWithRetry waitForVerificationStep (we_steps (fst (snd afterCreateUser)) ! 1)
            (we_id (fst (snd afterCreateUser))) (JObj [(''userId'', JStr ''u1'')]) atWaitStep
            = (Inl (Error ([] @ PAUSE_MARKER @ '':verified'')), se_r, rt_r)
       \<and> se_status se_r = Running \<and> se_error se_r = None"
    apply (rule exI [of _ se_r])
    apply (rule exI [of _ rt_r])
    apply (simp only: B(3) fst_conv snd_conv)
    apply (intro conjI)
       apply simp
      apply (rule e [folded atWaitStep_def])
     apply (rule B(1))
    apply (rule B(2))
    done
  show ?thesis
    using h wait_found wait_pending wait_retry_exit [unfolded msg] A C le
    by (simp only: simp_thms)
qed

section \<open>Registration and unknown ids\<close>

text \<open>
  C6. \<open>startWorkflow\<close> with a workflow id that is not registered throws the error
  \<open>Workflow <id> not found\<close> and leaves the runtime, and so the table of executions, as it
  was. \<open>signalWorkflow\<close> with an id under which no execution is stored returns normally
  and changes nothing.
\<close>

theorem unknown_ids:
  "(workflowDefinitions rt workflowId = None \<longrightarrow>
      startWorkflow rt newId workflowId initialInput
        = (Inl (Error (''Workflow '' @ workflowId @ '' not found'')), rt))
   \<and> (getWorkflow rt executionId = None \<longrightarrow>
      signalWorkflow rt executionId event data = (None, None, rt))"
  by (simp add: startWorkflow_def signalWorkflow_def)

theorem unknown_ids_witness:
  "workflowDefinitions (motia True) ''nonexistent'' = None
   \<and> startWorkflow (motia True) ''e9'' ''nonexistent'' (JObj [])
        = (Inl (Error ''Workflow nonexistent not found''), motia True)
   \<and> getWorkflow (motia True) ''nonexistent-id'' = None
   \<and> signalWorkflow (motia True) ''nonexistent-id'' ''x'' (JObj []) = (None, None, motia True)"
proof -
  have a: "workflowDefinitions (motia True) ''nonexistent'' = None"
    by (simp add: motia_def registerWorkflow_def userSignupWorkflow_def riskOnlyWorkflow_def)
  have b: "getWorkflow (motia True) ''nonexistent-id'' = None"
    by (simp add: motia_def registerWorkflow_def getWorkflow_def)
  from unknown_ids [of "motia True" "''nonexistent''" "''e9''" "JObj []" "''nonexistent-id''"
      "''x''" "JObj []"] a b
  show ?thesis by simp
qed

text \<open>
  C7, as the code has it. \<open>registerStep\<close> and \<open>registerWorkflow\<close> store the definition
  under its id and cannot fail. A second definition registered under the same id takes the
  place of the first, whatever its body; registering the same definition again leaves the
  registry as it was.
\<close>

theorem register_last_write_wins:
  "stepDefinitions (registerStep rt step) (sd_id step) = Some step
   \<and> stepDefinitions (registerStep (registerStep rt step) (other\<lparr>sd_id := sd_id step\<rparr>)) (sd_id step)
       = Some (other\<lparr>sd_id := sd_id step\<rparr>)
   \<and> registerStep (registerStep rt step) step = registerStep rt step
   \<and> workflowDefinitions (registerWorkflow rt workflow) (wd_id workflow) = Some workflow
   \<and> workflowDefinitions
        (registerWorkflow (registerWorkflow rt workflow) (other_workflow\<lparr>wd_id := wd_id workflow\<rparr>))
        (wd_id workflow)
       = Some (other_workflow\<lparr>wd_id := wd_id workflow\<rparr>)
   \<and> registerWorkflow (registerWorkflow rt workflow) workflow = registerWorkflow rt workflow"
  by (simp add: registerStep_def registerWorkflow_def)

text \<open>
  The claim C7 itself asks for a \<open>DuplicateIdError\<close> when the body differs. Here a second
  version of a step, with another name, is registered under the id of the first: the
  registration goes through and the registry holds the second version.
\<close>

theorem register_replaces_counterexample:
  "sd_id (createUserStep\<lparr>sd_name := ''Create User, second version''\<rparr>) = sd_id createUserStep
   \<and> createUserStep\<lparr>sd_name := ''Create User, second version''\<rparr> \<noteq> createUserStep
   \<and> stepDefinitions
        (registerStep (registerStep (motia True) createUserStep)
           (createUserStep\<lparr>sd_name := ''Create User, second version''\<rparr>))
        ''create-user''
       = Some (createUserStep\<lparr>sd_name := ''Create User, second version''\<rparr>)"
proof -
  have "sd_name (createUserStep\<lparr>sd_name := ''Create User, second version''\<rparr>)
          \<noteq> sd_name createUserStep"
    by (simp add: createUserStep_def)
  then have "createUserStep\<lparr>sd_name := ''Create User, second version''\<rparr> \<noteq> createUserStep"
    by metis
  moreover have "sd_id createUserStep = ''create-user''" by (simp add: createUserStep_def)
  ultimately show ?thesis by (simp add: registerStep_def)
qed

section \<open>Re-entry and terminal states\<close>

lemma completedRun_eq:
  "executeWorkflow (motia True) riskExecution (JObj [])
     = (fst completedRun, fst (snd completedRun), snd (snd completedRun))"
  by (simp add: completedRun_def)

lemma completedRun_fields:
  "we_status (fst (snd completedRun)) = WCompleted"
  "we_workflowId (fst (snd completedRun)) = ''risk-only''"
  "map se_status (we_steps (fst (snd completedRun))) = [Completed]"
  "map se_stepId (we_steps (fst (snd completedRun))) = [''ai-risk-check'']"
  by (simp_all add: completedRun_def engine_defs motia_fields workflow_steps step_fields
      step_handlers risk_fields)

text \<open>
  C4, as the code has it. Take an execution that mirrors its definition (the step
  executions carry the ids of the definition's steps, in order, and the ids are distinct)
  and whose first \<open>n\<close> step executions are completed. Then the loop of \<open>executeWorkflow\<close>
  passes over the first \<open>n\<close> steps without running a handler and without changing the
  execution or the runtime, hands the stored output of step \<open>n\<close> to what follows (the
  given input when \<open>n = 0\<close>), and does exactly what the loop over the remaining steps
  does from there. And when a call of \<open>executeWorkflow\<close> has brought an execution to
  \<open>completed\<close>, any later call leaves the record as it is but for a fresh \<open>completedAt\<close>,
  and saves it.
\<close>

theorem completed_steps_are_skipped:
  "(map se_stepId (we_steps execution) = map sd_id stepDefs \<and> distinct (map sd_id stepDefs)
      \<and> n \<le> length stepDefs \<and> (\<forall>i<n. se_status (we_steps execution ! i) = Completed)
    \<longrightarrow> step_loop (take n stepDefs) execution input rt
          = (LoopEnd (if n = 0 then input else se_output (we_steps execution ! (n - 1))),
             execution, rt)
      \<and> step_loop stepDefs execution input rt
          = step_loop (drop n stepDefs) execution
              (if n = 0 then input else se_output (we_steps execution ! (n - 1))) rt)
   \<and>
   (workflowDefinitions rt (we_workflowId execution) = Some workflowDef
      \<and> we_status execution \<noteq> WCompleted
      \<and> executeWorkflow rt execution input = (err, execution', rt')
      \<and> we_status execution' = WCompleted
      \<and> workflowDefinitions later (we_workflowId execution) = Some workflowDef
    \<longrightarrow> executeWorkflow later execution' input'
          = (None, execution'\<lparr>we_completedAt := Some (clock later)\<rparr>,
             saveWorkflow later (execution'\<lparr>we_completedAt := Some (clock later)\<rparr>)))"
proof -
  have A: "step_loop (take n stepDefs) execution input rt
          = (LoopEnd (if n = 0 then input else se_output (we_steps execution ! (n - 1))),
             execution, rt)
      \<and> step_loop stepDefs execution input rt
          = step_loop (drop n stepDefs) execution
              (if n = 0 then input else se_output (we_steps execution ! (n - 1))) rt"
    if m: "map se_stepId (we_steps execution) = map sd_id stepDefs"
      and d: "distinct (map sd_id stepDefs)" and n: "n \<le> length stepDefs"
      and c: "\<forall>i<n. se_status (we_steps execution ! i) = Completed"
    using step_loop_resume_at [OF m d n c] by simp
  have B: "executeWorkflow later execution' input'
          = (None, execution'\<lparr>we_completedAt := Some (clock later)\<rparr>,
             saveWorkflow later (execution'\<lparr>we_completedAt := Some (clock later)\<rparr>))"
    if d: "workflowDefinitions rt (we_workflowId execution) = Some workflowDef"
      and nc: "we_status execution \<noteq> WCompleted"
      and r: "executeWorkflow rt execution input = (err, execution', rt')"
      and s: "we_status execution' = WCompleted"
      and l: "workflowDefinitions later (we_workflowId execution) = Some workflowDef"
  proof -
    from executeWorkflow_completed_result [OF d r s nc]
    have a: "all_completed (wd_steps workflowDef) execution'" "we_currentStep execution' = None"
      and wid: "we_workflowId execution' = we_workflowId execution"
      by simp_all
    have e: "execution'\<lparr>we_status := WCompleted, we_completedAt := Some (clock later),
                we_currentStep := None\<rparr> = execution'\<lparr>we_completedAt := Some (clock later)\<rparr>"
      using s a(2) by (cases execution') simp
    from executeWorkflow_all_completed [OF l [folded wid] a(1), of input'] show ?thesis
      unfolding e .
  qed
  from A B show ?thesis by blast
qed

theorem completed_steps_are_skipped_witness:
  "map se_stepId (we_steps pausedExecution) = map sd_id (wd_steps userSignupWorkflow)
   \<and> distinct (map sd_id (wd_steps userSignupWorkflow))
   \<and> (1::nat) \<le> length (wd_steps userSignupWorkflow)
   \<and> se_status (we_steps pausedExecution ! 0) = Completed
   \<and> step_loop (take 1 (wd_steps userSignupWorkflow)) pausedExecution (JObj []) (restarted True)
       = (LoopEnd (JObj [(''userId'', JStr ''u1'')]), pausedExecution, restarted True)
   \<and> step_loop (wd_steps userSignupWorkflow) pausedExecution (JObj []) (restarted True)
       = step_loop (drop 1 (wd_steps userSignupWorkflow)) pausedExecution
           (JObj [(''userId'', JStr ''u1'')]) (restarted True)
   \<and> workflowDefinitions (motia True) (we_workflowId riskExecution) = Some riskOnlyWorkflow
   \<and> we_status riskExecution \<noteq> WCompleted
   \<and> executeWorkflow (motia True) riskExecution (JObj [])
       = (fst completedRun, fst (snd completedRun), snd (snd completedRun))
   \<and> we_status (fst (snd completedRun)) = WCompleted
   \<and> workflowDefinitions (restarted True) (we_workflowId riskExecution) = Some riskOnlyWorkflow
   \<and> executeWorkflow (restarted True) (fst (snd completedRun)) JNull
       = (None, (fst (snd completedRun))\<lparr>we_completedAt := Some (clock (restarted True))\<rparr>,
          saveWorkflow (restarted True)
            ((fst (snd completedRun))\<lparr>we_completedAt := Some (clock (restarted True))\<rparr>))"
proof -
  have m: "map se_stepId (we_steps pausedExecution) = map sd_id (wd_steps userSignupWorkflow)"
    by (simp add: paused_fields paused_steps workflow_steps step_fields)
  have d: "distinct (map sd_id (wd_steps userSignupWorkflow))"
    by (simp add: workflow_steps step_fields)
  have n: "(1::nat) \<le> length (wd_steps userSignupWorkflow)"
    by (simp add: workflow_steps)
  have c: "\<forall>i<1. se_status (we_steps pausedExecution ! i) = Completed"
    by (simp add: paused_fields paused_steps)
  have o: "se_output (we_steps pausedExecution ! 0) = JObj [(''userId'', JStr ''u1'')]"
    by (simp add: paused_fields paused_steps)
  have d2: "workflowDefinitions (motia True) (we_workflowId riskExecution) = Some riskOnlyWorkflow"
    by (simp add: risk_fields motia_fields)
  have nc: "we_status riskExecution \<noteq> WCompleted" by (simp add: risk_fields)
  note s = completedRun_fields(1)
  have l: "workflowDefinitions (restarted True) (we_workflowId riskExecution) = Some riskOnlyWorkflow"
    by (simp add: risk_fields restarted_fields)
  note inst = completed_steps_are_skipped [where execution = pausedExecution
      and stepDefs = "wd_steps userSignupWorkflow" and n = 1 and input = "JObj []"
      and rt = "restarted True", THEN conjunct1, rule_format, OF conjI [OF m conjI [OF d conjI [OF n c]]]]
  note inst2 = completed_steps_are_skipped [where execution = riskExecution
      and rt = "motia True" and workflowDef = riskOnlyWorkflow and input = "JObj []"
      and later = "restarted True" and input' = JNull,
      THEN conjunct2, rule_format, OF conjI [OF d2 conjI [OF nc conjI [OF completedRun_eq conjI [OF s l]]]]]
  have c0: "se_status (we_steps pausedExecution ! 0) = Completed"
    by (simp add: paused_fields paused_steps)
  show ?thesis
    using m d n c0 d2 nc completedRun_eq s l inst inst2 o
    by simp
qed

text \<open>
  The claim C4 itself says that calling \<open>executeWorkflow\<close> twice gives the same final
  state as calling it once. The paused signup execution has its first step completed.
  Each further call skips that step but runs the waiting step again, which pauses again
  and adds four log entries: after one call the waiting step has 8 log entries, after two
  calls 12.
\<close>

theorem execute_twice_counterexample:
  "se_status (we_steps pausedExecution ! 0) = Completed
   \<and> fst (snd resumedTwice) \<noteq> fst (snd resumedOnce)
   \<and> length (se_logs (we_steps (fst (snd resumedOnce)) ! 1)) = 8
   \<and> length (se_logs (we_steps (fst (snd resumedTwice)) ! 1)) = 12"
proof -
  have a: "se_status (we_steps pausedExecution ! 0) = Completed"
    by (simp add: paused_fields paused_steps)
  have w: "length (se_logs waitPaused) = 4"
    by (simp add: waitPaused_def pausedExecution_def pausedRun_def)
  have b: "length (se_logs (we_steps (fst (snd resumedOnce)) ! 1)) = 8"
    by (simp add: resumedOnce_def sym w)
  have c: "length (se_logs (we_steps (fst (snd resumedTwice)) ! 1)) = 12"
    by (simp add: resumedTwice_def resumedOnce_def sym w)
  from b c have "fst (snd resumedTwice) \<noteq> fst (snd resumedOnce)" by auto
  with a b c show ?thesis by simp
qed

text \<open>
  C3, as the code has it. \<open>signalWorkflow\<close> on an execution whose stored status is
  \<open>completed\<close> or \<open>failed\<close> returns at its guard and changes nothing. \<open>executeWorkflow\<close>
  has no such guard; on a completed execution whose steps are all completed it runs no
  handler and leaves steps and status as they are.
\<close>

theorem terminal_executions_stay:
  "(getWorkflow rt workflowId = Some execution
      \<and> (we_status execution = WCompleted \<or> we_status execution = WFailed)
    \<longrightarrow> signalWorkflow rt workflowId event data = (None, None, rt))
   \<and>
   (workflowDefinitions rt (we_workflowId execution) = Some workflowDef
      \<and> we_status execution = WCompleted
      \<and> all_completed (wd_steps workflowDef) execution
    \<longrightarrow> (\<exists>execution' rt'.
           executeWorkflow rt execution input = (None, execution', rt')
         \<and> we_steps execution' = we_steps execution
         \<and> we_status execution' = we_status execution
         \<and> events rt' = events rt))"
proof -
  have A: "signalWorkflow rt workflowId event data = (None, None, rt)"
    if "getWorkflow rt workflowId = Some execution"
      and "we_status execution = WCompleted \<or> we_status execution = WFailed"
    using that by (auto simp: signalWorkflow_def)
  have B: "\<exists>execution' rt'.
           executeWorkflow rt execution input = (None, execution', rt')
         \<and> we_steps execution' = we_steps execution
         \<and> we_status execution' = we_status execution
         \<and> events rt' = events rt"
    if d: "workflowDefinitions rt (we_workflowId execution) = Some workflowDef"
      and s: "we_status execution = WCompleted"
      and a: "all_completed (wd_steps workflowDef) execution"
    using executeWorkflow_all_completed [OF d a, of input] s by simp
  from A B show ?thesis by blast
qed

theorem terminal_executions_stay_witness:
  "getWorkflow (restarted True) ''e2'' = Some failedExecution
   \<and> we_status failedExecution = WFailed
   \<and> signalWorkflow (restarted True) ''e2'' ''verified'' (JObj []) = (None, None, restarted True)
   \<and> workflowDefinitions (motia True) (we_workflowId (fst (snd completedRun)))
        = Some riskOnlyWorkflow
   \<and> we_status (fst (snd completedRun)) = WCompleted
   \<and> all_completed (wd_steps riskOnlyWorkflow) (fst (snd completedRun))
   \<and> (\<exists>execution' (rt' :: bool MotiaRuntime).
         executeWorkflow (motia True) (fst (snd completedRun)) JNull = (None, execution', rt')
       \<and> we_steps execution' = we_steps (fst (snd completedRun))
       \<and> we_status execution' = WCompleted
       \<and> events rt' = events (motia True))"
proof -
  have g: "getWorkflow (restarted True) ''e2'' = Some failedExecution"
    by (simp add: restarted_fields)
  have f: "we_status failedExecution = WCompleted \<or> we_status failedExecution = WFailed"
    by (simp add: failed_fields)
  have d: "workflowDefinitions (motia True) (we_workflowId (fst (snd completedRun)))
        = Some riskOnlyWorkflow"
    by (simp add: completedRun_fields motia_fields)
  have "workflowDefinitions (motia True) (we_workflowId riskExecution) = Some riskOnlyWorkflow"
    by (simp add: risk_fields motia_fields)
  from executeWorkflow_completed_result [OF this completedRun_eq completedRun_fields(1)]
  have a: "all_completed (wd_steps riskOnlyWorkflow) (fst (snd completedRun))"
    by (simp add: risk_fields)
  note inst = terminal_executions_stay [where rt = "restarted True" and workflowId = "''e2''"
      and execution = failedExecution and event = "''verified''" and data = "JObj []",
      THEN conjunct1, rule_format, OF conjI [OF g f]]
  note inst2 = terminal_executions_stay [where rt = "motia True"
      and execution = "fst (snd completedRun)" and workflowDef = riskOnlyWorkflow
      and input = JNull,
      THEN conjunct2, rule_format, OF conjI [OF d conjI [OF completedRun_fields(1) a]]]
  show ?thesis
    using g failed_fields(3) inst d completedRun_fields(1) a
      inst2 [unfolded completedRun_fields(1)]
    by (simp only: simp_thms)
qed

text \<open>
  The claim C3 itself also covers \<open>executeWorkflow\<close> on a failed execution. The risk
  check failed while the service was down, so the execution is \<open>failed\<close>. Calling
  \<open>executeWorkflow\<close> on it once the service is back runs the failed step again: the step
  and the execution end \<open>completed\<close>.
\<close>

theorem execute_on_failed_counterexample:
  "we_status failedExecution = WFailed
   \<and> map se_status (we_steps failedExecution) = [Failed]
   \<and> we_status (fst (snd rerunFailed)) = WCompleted
   \<and> map se_status (we_steps (fst (snd rerunFailed))) = [Completed]"
  by (simp add: rerunFailed_def sym failed_fields)

section \<open>Signals\<close>



section \<open>Terminal failure of a step\<close>

text \<open>
  C9 at a concrete run. The paused signup execution is signalled while the risk service
  is down: the waiting step completes, the risk check fails three times, and its error
  leaves \<open>signalWorkflow\<close>. The step is \<open>failed\<close>, but the execution record and the stored
  record still say \<open>running\<close>. On the path through \<open>startWorkflow\<close> the same failure
  leaves the execution \<open>failed\<close>, in the record handed to the caller and in the record
  that the store gives back.
\<close>

theorem resume_failure_leaves_running:
  "fst failedResume = Some (Error ''AI risk check failed: service unavailable'')
   \<and> map_option we_status (fst (snd failedResume)) = Some WRunning
   \<and> map_option (map se_status \<circ> we_steps) (fst (snd failedResume))
       = Some [Completed, Completed, Failed]
   \<and> map_option we_status (getWorkflow (snd (snd failedResume)) ''e1'') = Some WRunning
   \<and> fst failedStart = Inr failedReturned
   \<and> we_status failedReturned = WFailed
   \<and> getWorkflow (snd failedStart) ''e2'' = Some failedExecution
   \<and> we_status failedExecution = WFailed"
proof -
  have a: "fst failedResume = Some (Error ''AI risk check failed: service unavailable'')"
    by (simp add: failedResume_def sym)
  have b: "map_option we_status (fst (snd failedResume)) = Some WRunning"
    by (simp add: failedResume_def sym)
  have c: "map_option (map se_status \<circ> we_steps) (fst (snd failedResume))
       = Some [Completed, Completed, Failed]"
    by (simp add: failedResume_def sym)
  have d: "map_option we_status (getWorkflow (snd (snd failedResume)) ''e1'') = Some WRunning"
    by (simp add: failedResume_def sym stored_fields)
  from a b c d failedStart_result returned_ids(4) failed_fields(3) show ?thesis
    by (simp only: simp_thms)
qed

end
